theory Spec2Isabelle
  imports Main
begin

section \<open>The host platform\<close>

text \<open>
  The program is a Node.js host for a Pyodide runtime. It sees the host platform through
  Node's \<^verbatim>\<open>path\<close> and \<^verbatim>\<open>fs\<close> modules. Paths and file contents are strings; a string is a
  list of 8-bit characters (the UTF-8 bytes of the text). Every character the program
  inspects (\<^verbatim>\<open>/ . - _ $ { }\<close> and the quotes) is ASCII, so the byte view and JavaScript's
  UTF-16 view of a string agree on everything the program does.
\<close>

type_synonym path = string

subsection \<open>String helpers of JavaScript\<close>

text \<open>\<^verbatim>\<open>s.startsWith(p)\<close> and \<^verbatim>\<open>s.endsWith(p)\<close>.\<close>

definition startsWith :: "string \<Rightarrow> string \<Rightarrow> bool" where
  "startsWith s p = (take (length p) s = p)"

definition endsWith :: "string \<Rightarrow> string \<Rightarrow> bool" where
  "endsWith s p = (length p \<le> length s \<and> drop (length s - length p) s = p)"

text \<open>\<^verbatim>\<open>s.includes(p)\<close>: \<open>p\<close> occurs in \<open>s\<close> as a contiguous substring.\<close>

fun includes_str :: "string \<Rightarrow> string \<Rightarrow> bool" where
  "includes_str [] p = (p = [])"
| "includes_str (c # cs) p = (startsWith (c # cs) p \<or> includes_str cs p)"

text \<open>\<^verbatim>\<open>s.replace(/-/g, '_')\<close>: every hyphen becomes an underscore.\<close>

definition replace_hyphens :: "string \<Rightarrow> string" where
  "replace_hyphens s = map (\<lambda>c. if c = CHR ''-'' then CHR ''_'' else c) s"

text \<open>
  An optional string of JavaScript (a string or \<^verbatim>\<open>undefined\<close>) is a \<open>string option\<close>. It is
  truthy when it is a non-empty string: the tests \<^verbatim>\<open>if (x)\<close>, \<^verbatim>\<open>x && y\<close>, \<^verbatim>\<open>x || y\<close> and
  \<^verbatim>\<open>filter(Boolean)\<close> of the program are written out as a case on the option and \<open>s \<noteq> []\<close>.
\<close>

subsection \<open>Node's \<^verbatim>\<open>path\<close> module (POSIX)\<close>

text \<open>Splitting a path at every \<^verbatim>\<open>/\<close>; the result is never empty.\<close>

fun split_slash :: "string \<Rightarrow> string list" where
  "split_slash [] = [[]]"
| "split_slash (c # cs) =
     (if c = CHR ''/'' then [] # split_slash cs
      else (case split_slash cs of
              [] \<Rightarrow> [[c]]
            | seg # segs \<Rightarrow> (c # seg) # segs))"

text \<open>
  \<^verbatim>\<open>normalizeString\<close>: the segments of a path, left to right, with the result so far kept in
  reverse. Empty segments and \<^verbatim>\<open>.\<close> are dropped; \<^verbatim>\<open>..\<close> removes the last kept segment unless
  there is none or it is \<^verbatim>\<open>..\<close> itself, in which case it is kept only when the path is
  relative (\<open>allowAboveRoot\<close>).
\<close>

fun normalizeSegments :: "bool \<Rightarrow> string list \<Rightarrow> string list \<Rightarrow> string list" where
  "normalizeSegments allowAboveRoot res [] = rev res"
| "normalizeSegments allowAboveRoot res (seg # segs) =
     (if seg = [] \<or> seg = ''.'' then normalizeSegments allowAboveRoot res segs
      else if seg = ''..'' then
        (case res of
           [] \<Rightarrow> normalizeSegments allowAboveRoot (if allowAboveRoot then [''..''] else []) segs
         | r # rs \<Rightarrow>
             if r = ''..'' then
               normalizeSegments allowAboveRoot (if allowAboveRoot then ''..'' # res else res) segs
             else normalizeSegments allowAboveRoot rs segs)
      else normalizeSegments allowAboveRoot (seg # res) segs)"

fun join_slash :: "string list \<Rightarrow> string" where
  "join_slash [] = []"
| "join_slash [s] = s"
| "join_slash (s # t # ss) = s @ ''/'' @ join_slash (t # ss)"

text \<open>\<^verbatim>\<open>path.normalize\<close>.\<close>

definition normalize :: "path \<Rightarrow> path" where
  "normalize p =
     (if p = [] then ''.''
      else
        let isAbsolute = (hd p = CHR ''/'');
            trailingSeparator = (last p = CHR ''/'');
            q = join_slash (normalizeSegments (\<not> isAbsolute) [] (split_slash p))
        in if q = [] then (if isAbsolute then ''/'' else if trailingSeparator then ''./'' else ''.'')
           else (if isAbsolute then ''/'' else []) @ q @ (if trailingSeparator then ''/'' else []))"

text \<open>
  \<^verbatim>\<open>path.join(...args)\<close>: the non-empty arguments, joined by \<^verbatim>\<open>/\<close>, then normalized; \<^verbatim>\<open>.\<close>
  when there is none.
\<close>

definition path_join :: "string list \<Rightarrow> path" where
  "path_join args =
     (let parts = filter (\<lambda>a. a \<noteq> []) args
      in if parts = [] then ''.'' else normalize (join_slash parts))"

text \<open>
  \<^verbatim>\<open>path.basename(p)\<close>: trailing slashes are ignored, and the result is what follows the
  last remaining slash.
\<close>

definition basename :: "path \<Rightarrow> string" where
  "basename p =
     rev (takeWhile (\<lambda>c. c \<noteq> CHR ''/'') (dropWhile (\<lambda>c. c = CHR ''/'') (rev p)))"

subsection \<open>Node's \<^verbatim>\<open>fs\<close> module\<close>

text \<open>
  What the host holds at a path, as the \<^verbatim>\<open>fs\<close> calls of the program can tell it apart:
  \<^item> \<open>File content\<close>: a file that \<^verbatim>\<open>readFileSync(p, "utf8")\<close> reads as \<open>content\<close>;
  \<^item> \<open>UnreadableFile\<close>: a file on which \<^verbatim>\<open>readFileSync\<close> throws;
  \<^item> \<open>Dir entries\<close>: a directory that \<^verbatim>\<open>readdirSync\<close> lists as \<open>entries\<close>, each name with what
    the host holds under it;
  \<^item> \<open>UnreadableDir\<close>: a directory on which \<^verbatim>\<open>readdirSync\<close> throws;
  \<^item> \<open>Missing\<close>: \<^verbatim>\<open>statSync\<close> throws (nothing is there, or a dangling symbolic link).
\<close>

datatype node =
    File string
  | UnreadableFile
  | Dir "(string \<times> node) list"
  | UnreadableDir
  | Missing

text \<open>\<^verbatim>\<open>fs.statSync(p).isDirectory()\<close>; \<open>None\<close> when \<^verbatim>\<open>statSync\<close> throws.\<close>

fun statIsDirectory :: "node \<Rightarrow> bool option" where
  "statIsDirectory Missing = None"
| "statIsDirectory (Dir entries) = Some True"
| "statIsDirectory UnreadableDir = Some True"
| "statIsDirectory (File content) = Some False"
| "statIsDirectory UnreadableFile = Some False"

text \<open>\<^verbatim>\<open>fs.readdirSync(p)\<close> and \<^verbatim>\<open>fs.readFileSync(p, "utf8")\<close>; \<open>None\<close> when they throw.\<close>

fun readdirSync :: "node \<Rightarrow> (string \<times> node) list option" where
  "readdirSync (Dir entries) = Some entries"
| "readdirSync nd = None"

fun readFileSync :: "node \<Rightarrow> string option" where
  "readFileSync (File content) = Some content"
| "readFileSync nd = None"

text \<open>
  A snapshot of the host: what it holds at each path, and the three values of the process
  that the program reads: the directory of its modules (\<^verbatim>\<open>__dirname\<close>, the same for
  \<^verbatim>\<open>src/pyodideShell.js\<close> and \<^verbatim>\<open>src/scriptManager.js\<close>), \<^verbatim>\<open>process.cwd()\<close> and the environment
  variable \<^verbatim>\<open>CHUK_VIRTUAL_SHELL_PATH\<close>.
\<close>

record host =
  lookup :: "path \<Rightarrow> node"
  dirname :: path
  cwd :: path
  env_CHUK_VIRTUAL_SHELL_PATH :: "string option"

text \<open>\<^verbatim>\<open>fs.existsSync(p)\<close>: whether \<^verbatim>\<open>stat\<close> succeeds at the path.\<close>

definition existsSync :: "host \<Rightarrow> path \<Rightarrow> bool" where
  "existsSync h p = (statIsDirectory (lookup h p) \<noteq> None)"

text \<open>
  \<^verbatim>\<open>fs.statSync(p).isDirectory()\<close> where the program calls it behind \<^verbatim>\<open>fs.existsSync(p)\<close>, so
  that \<^verbatim>\<open>statSync\<close> does not throw.
\<close>

definition isDirectory :: "host \<Rightarrow> path \<Rightarrow> bool" where
  "isDirectory h p = (statIsDirectory (lookup h p) = Some True)"

text \<open>A JavaScript \<^verbatim>\<open>Error\<close> with its message; every \<^verbatim>\<open>throw\<close> of the program is one.\<close>

datatype error = Error string

text \<open>The options object handed to \<^verbatim>\<open>runPyodideShell\<close> and to the \<^verbatim>\<open>ScriptManager\<close>.\<close>

record options =
  pythonModulePath :: "string option"
  customScriptPath :: "string option"
  defaultSandbox :: "string option"

section \<open>PathResolver: \<^verbatim>\<open>src/pyodideShell.js\<close>\<close>

text \<open>\<^verbatim>\<open>isValidPythonModule(dirPath)\<close>.\<close>

definition isValidPythonModule :: "host \<Rightarrow> path \<Rightarrow> bool" where
  "isValidPythonModule h dirPath =
     (if \<not> existsSync h dirPath \<or> \<not> isDirectory h dirPath then False
      else if existsSync h (path_join [dirPath, ''__init__.py'']) then True
      else (case readdirSync (lookup h dirPath) of
              Some entries \<Rightarrow> list_ex (\<lambda>file. endsWith file ''.py'') (map fst entries)
            | None \<Rightarrow> False))"

text \<open>
  The fallback locations of \<^verbatim>\<open>locateVirtualShellDirectory\<close>, after \<^verbatim>\<open>filter(Boolean)\<close>: the
  environment variable is dropped when it is unset or empty.
\<close>

definition possibleLocations :: "host \<Rightarrow> path list" where
  "possibleLocations h =
     [''./chuk_virtual_shell'',
      ''../chuk_virtual_shell'',
      path_join [dirname h, ''..'', ''node_modules'', ''chuk-virtual-shell'']]
     @ (case env_CHUK_VIRTUAL_SHELL_PATH h of
          Some p \<Rightarrow> (if p \<noteq> [] then [p] else [])
        | None \<Rightarrow> [])"

definition notFoundMessage :: string where
  "notFoundMessage =
     ''Error: could not find '' @ [CHR 0x27] @ ''chuk_virtual_shell'' @ [CHR 0x27]
       @ '' Python module. Please specify a valid path.''"

text \<open>The loop over the fallback locations, and the \<^verbatim>\<open>throw\<close> after it.\<close>

fun firstValidLocation :: "host \<Rightarrow> path list \<Rightarrow> error + path" where
  "firstValidLocation h [] = Inl (Error notFoundMessage)"
| "firstValidLocation h (location # locations) =
     (if existsSync h location \<and> isValidPythonModule h location then Inr location
      else firstValidLocation h locations)"

text \<open>
  \<^verbatim>\<open>locateVirtualShellDirectory(options)\<close>. A candidate that is unset, empty or missing on
  the host falls through to the fallback locations.
\<close>

definition locateVirtualShellDirectory :: "host \<Rightarrow> options \<Rightarrow> error + path" where
  "locateVirtualShellDirectory h opts =
     (case pythonModulePath opts of
        None \<Rightarrow> firstValidLocation h (possibleLocations h)
      | Some outerPath \<Rightarrow>
          if outerPath \<noteq> [] \<and> existsSync h outerPath then
            (let baseName = replace_hyphens (basename outerPath);
                 innerPath = path_join [outerPath, baseName]
             in if existsSync h innerPath \<and> isDirectory h innerPath then Inr innerPath
                else Inr outerPath)
          else firstValidLocation h (possibleLocations h))"

text \<open>
  The package that \<^verbatim>\<open>loadVirtualShell\<close> and \<^verbatim>\<open>createAndRunShell\<close> resolve: the module
  directory, and the package name \<^verbatim>\<open>path.basename(moduleDir)\<close> under which the files are
  staged and imported.
\<close>

record resolvedPackage =
  hostDirectory :: path
  importName :: string

definition resolvePackage :: "host \<Rightarrow> options \<Rightarrow> error + resolvedPackage" where
  "resolvePackage h opts =
     (case locateVirtualShellDirectory h opts of
        Inl e \<Rightarrow> Inl e
      | Inr moduleDir \<Rightarrow>
          Inr \<lparr>hostDirectory = moduleDir, importName = basename moduleDir\<rparr>)"

section \<open>ScriptStager: \<^verbatim>\<open>src/scriptManager.js\<close>\<close>

text \<open>\<^verbatim>\<open>this.scriptBasePath\<close>, set by the constructor.\<close>

definition scriptBasePath :: "host \<Rightarrow> path" where
  "scriptBasePath h = path_join [dirname h, ''..'', ''python_scripts'']"

definition scriptFileName :: "string \<Rightarrow> string" where
  "scriptFileName scriptType =
     (if scriptType = ''enhanced'' then ''pyodide_enhanced_main.py'' else ''pyodide_basic_main.py'')"

definition alternateLocations :: "host \<Rightarrow> string \<Rightarrow> path list" where
  "alternateLocations h fileName =
     [path_join [cwd h, ''python_scripts'', fileName],
      path_join [cwd h, fileName],
      path_join [dirname h, fileName]]"

definition basicScriptPath :: "host \<Rightarrow> path" where
  "basicScriptPath h = path_join [scriptBasePath h, ''pyodide_basic_main.py'']"

definition scriptsNotFoundMessage :: string where
  "scriptsNotFoundMessage =
     ''Could not find any Python scripts. Make sure the python_scripts directory exists and contains the required files.''"

text \<open>The loop over the alternate locations.\<close>

fun firstExisting :: "host \<Rightarrow> path list \<Rightarrow> path option" where
  "firstExisting h [] = None"
| "firstExisting h (location # locations) =
     (if existsSync h location then Some location else firstExisting h locations)"

text \<open>
  \<^verbatim>\<open>getScriptPath(scriptType)\<close> after the test of the custom script: the script of the
  requested type in the scripts directory, then in the alternate locations, then the basic
  script of the scripts directory, then the \<^verbatim>\<open>throw\<close>.
\<close>

definition builtinScriptPath :: "host \<Rightarrow> string \<Rightarrow> error + path" where
  "builtinScriptPath h scriptType =
     (let fileName = scriptFileName scriptType;
          scriptPath = path_join [scriptBasePath h, fileName]
      in if existsSync h scriptPath then Inr scriptPath
         else (case firstExisting h (alternateLocations h fileName) of
                 Some location \<Rightarrow> Inr location
               | None \<Rightarrow>
                   if existsSync h (basicScriptPath h) then Inr (basicScriptPath h)
                   else Inl (Error scriptsNotFoundMessage)))"

text \<open>\<^verbatim>\<open>getScriptPath(scriptType)\<close>.\<close>

definition getScriptPath :: "host \<Rightarrow> options \<Rightarrow> string \<Rightarrow> error + path" where
  "getScriptPath h opts scriptType =
     (case customScriptPath opts of
        None \<Rightarrow> builtinScriptPath h scriptType
      | Some custom \<Rightarrow>
          if custom \<noteq> [] \<and> existsSync h custom then Inr custom
          else builtinScriptPath h scriptType)"

subsection \<open>Placeholder substitution\<close>

text \<open>
  The regular expression \<^verbatim>\<open>/\$\{([^}]+)\}/\<close> tried at the start of a string: \<^verbatim>\<open>${\<close>, then the
  longest run of characters other than \<^verbatim>\<open>}\<close> (the greedy \<^verbatim>\<open>[^}]+\<close>, which must not be empty),
  then \<^verbatim>\<open>}\<close>. A shorter run is followed by a character other than \<^verbatim>\<open>}\<close>, so backtracking
  finds no other match. The result is the captured name and the text after the match.
\<close>

definition matchPlaceholder :: "string \<Rightarrow> (string \<times> string) option" where
  "matchPlaceholder s =
     (case s of
        c1 # c2 # t \<Rightarrow>
          if c1 = CHR ''$'' \<and> c2 = CHR ''{'' then
            (let varName = takeWhile (\<lambda>c. c \<noteq> CHR ''}'') t;
                 rest = dropWhile (\<lambda>c. c \<noteq> CHR ''}'') t
             in if varName \<noteq> [] \<and> rest \<noteq> [] then Some (varName, tl rest) else None)
          else None
      | _ \<Rightarrow> None)"

text \<open>
  \<^verbatim>\<open>content.replace(regex, callback)\<close> with the global flag: the string is scanned from left
  to right; where the expression matches, the callback's result for the match and the
  captured name takes the place of the match and the scan goes on after it; elsewhere the
  character is copied and the scan goes on at the next one.
\<close>

function replacePlaceholders :: "(string \<Rightarrow> string \<Rightarrow> string) \<Rightarrow> string \<Rightarrow> string" where
  "replacePlaceholders callback [] = []"
| "replacePlaceholders callback (c # cs) =
     (case matchPlaceholder (c # cs) of
        Some (varName, rest) \<Rightarrow>
          callback (''${'' @ varName @ ''}'') varName @ replacePlaceholders callback rest
      | None \<Rightarrow> c # replacePlaceholders callback cs)"
  by pat_completeness auto
termination
proof (relation "measure (\<lambda>(callback, s). length s)", goal_cases)
  case 1
  show ?case by simp
next
  case (2 callback c cs)
  show ?case by simp
next
  case (3 callback c cs x2 varName rest)
  have "length (dropWhile P t) \<le> length t" for P and t :: string
    by (simp add: length_dropWhile_le)
  then have "length (tl (dropWhile P t)) < Suc (Suc (length t))" for P and t :: string
    by (metis length_tl diff_le_self le_imp_less_Suc le_trans less_Suc_eq)
  then show ?case
    using 3 by (auto simp: matchPlaceholder_def Let_def split: list.splits if_splits)
qed

text \<open>\<^verbatim>\<open>this.options.defaultSandbox || 'ai_sandbox'\<close>.\<close>

definition sandboxOrDefault :: "options \<Rightarrow> string" where
  "sandboxOrDefault opts =
     (case defaultSandbox opts of
        None \<Rightarrow> ''ai_sandbox''
      | Some s \<Rightarrow> if s \<noteq> [] then s else ''ai_sandbox'')"

text \<open>The callback of \<^verbatim>\<open>processScriptContent\<close>: its \<^verbatim>\<open>switch\<close> on the captured name.\<close>

definition placeholderValue :: "options \<Rightarrow> string \<Rightarrow> string \<Rightarrow> string" where
  "placeholderValue opts match varName =
     (if varName = ''options.defaultSandbox'' \<or> varName = ''defaultSandbox''
      then sandboxOrDefault opts
      else match)"

text \<open>\<^verbatim>\<open>processScriptContent(content)\<close>.\<close>

definition processScriptContent :: "options \<Rightarrow> string \<Rightarrow> string" where
  "processScriptContent opts content = replacePlaceholders (placeholderValue opts) content"

section \<open>The embedded runtime\<close>

text \<open>
  The program drives the Pyodide runtime by handing Python source text to
  \<^verbatim>\<open>pyodide.runPython\<close>. Three scripts are built, each by interpolating values into a
  template: one makes a directory, two write a file. The runtime is modelled by its virtual
  filesystem and by the way its Python reads the interpolated values.

  A place of the virtual filesystem is the list of the names that lead to it from the
  root. The state of the filesystem is what the scripts change: \<open>directories\<close>, the places
  where a directory has been made, and \<open>files\<close>, the files written with their content, most
  recent first. Two components are parameters of the runtime, which no script changes:
  \<^item> \<open>refuses\<close>: the places where the filesystem takes neither a new directory nor a file (a
    mount that cannot be written);
  \<^item> \<open>pythonReads\<close>: the path that Python's evaluation gives for an interpolated path text
    that the model does not read itself (see \<open>py_path\<close>), or \<open>None\<close> when the script throws
    there.
\<close>

type_synonym place = "string list"

record pyodide =
  pythonReads :: "string \<Rightarrow> path option"
  refuses :: "place \<Rightarrow> bool"
  directories :: "place list"
  files :: "(place \<times> string) list"

text \<open>
  Every exception that leaves \<^verbatim>\<open>runPython\<close> is taken as one error: the program never looks
  at its kind, and its message only goes into a warning or up to the caller.
\<close>

definition pythonError :: error where
  "pythonError = Error ''PythonError''"

subsection \<open>Base64: \<^verbatim>\<open>Buffer.from(content).toString("base64")\<close> and \<^verbatim>\<open>base64.b64decode\<close>\<close>

text \<open>The Base64 alphabet (RFC 4648): \<^verbatim>\<open>A-Z\<close>, \<^verbatim>\<open>a-z\<close>, \<^verbatim>\<open>0-9\<close>, \<^verbatim>\<open>+\<close>, \<^verbatim>\<open>/\<close>.\<close>

definition b64char :: "nat \<Rightarrow> char" where
  "b64char i =
     (if i < 26 then char_of (65 + i)
      else if i < 52 then char_of (71 + i)
      else if i < 62 then char_of (i - 4)
      else if i = 62 then CHR ''+''
      else CHR ''/'')"

text \<open>
  The encoder of Node's \<^verbatim>\<open>Buffer\<close>: three bytes give four characters; one or two bytes left
  over give two or three characters and the padding \<^verbatim>\<open>=\<close>.
\<close>

fun base64_encode :: "string \<Rightarrow> string" where
  "base64_encode [] = []"
| "base64_encode [a] =
     (let x = (of_char a :: nat)
      in [b64char (x div 4), b64char ((x mod 4) * 16), CHR ''='', CHR ''=''])"
| "base64_encode [a, b] =
     (let x = (of_char a :: nat); y = (of_char b :: nat)
      in [b64char (x div 4), b64char ((x mod 4) * 16 + y div 16),
          b64char ((y mod 16) * 4), CHR ''=''])"
| "base64_encode (a # b # c # rest) =
     (let x = (of_char a :: nat); y = (of_char b :: nat); z = (of_char c :: nat)
      in [b64char (x div 4), b64char ((x mod 4) * 16 + y div 16),
          b64char ((y mod 16) * 4 + z div 64), b64char (z mod 64)])
     @ base64_encode rest"

text \<open>The decoding table of CPython's \<^verbatim>\<open>binascii\<close>: the value of a character of the alphabet.\<close>

definition b64index :: "char \<Rightarrow> nat option" where
  "b64index c =
     (let n = (of_char c :: nat)
      in if 65 \<le> n \<and> n \<le> 90 then Some (n - 65)
         else if 97 \<le> n \<and> n \<le> 122 then Some (n - 71)
         else if 48 \<le> n \<and> n \<le> 57 then Some (n + 4)
         else if c = CHR ''+'' then Some 62
         else if c = CHR ''/'' then Some 63
         else None)"

text \<open>
  \<^verbatim>\<open>binascii.a2b_base64\<close> in its default, non-strict mode, as \<^verbatim>\<open>base64.b64decode\<close> calls it: the
  loop over the input with its state \<open>quad_pos\<close>, \<open>leftchar\<close>, \<open>pads\<close> and the bytes decoded
  so far (in reverse). Characters outside the alphabet are skipped; padding that completes
  a group ends the decoding; an incomplete group at the end of the input is the error
  "Incorrect padding" (\<open>None\<close>). The shifts and the bitwise or of the C code are written as
  multiplications and sums: the operands have no bit in common.
\<close>

fun a2b_base64 :: "nat \<Rightarrow> nat \<Rightarrow> nat \<Rightarrow> string \<Rightarrow> string \<Rightarrow> string option" where
  "a2b_base64 quad_pos leftchar pads bin [] = (if quad_pos \<noteq> 0 then None else Some (rev bin))"
| "a2b_base64 quad_pos leftchar pads bin (this_ch # ascii) =
     (if this_ch = CHR ''='' then
        (if quad_pos \<ge> 2 \<and> quad_pos + (pads + 1) \<ge> 4 then Some (rev bin)
         else a2b_base64 quad_pos leftchar (if quad_pos \<ge> 2 then pads + 1 else pads) bin ascii)
      else
        (case b64index this_ch of
           None \<Rightarrow> a2b_base64 quad_pos leftchar pads bin ascii
         | Some v \<Rightarrow>
             if quad_pos = 0 then a2b_base64 1 v 0 bin ascii
             else if quad_pos = 1 then
               a2b_base64 2 (v mod 16) 0 (char_of (leftchar * 4 + v div 16) # bin) ascii
             else if quad_pos = 2 then
               a2b_base64 3 (v mod 4) 0 (char_of (leftchar * 16 + v div 4) # bin) ascii
             else a2b_base64 0 0 0 (char_of (leftchar * 64 + v) # bin) ascii))"

text \<open>
  \<^verbatim>\<open>base64.b64decode(s)\<close> on a \<^verbatim>\<open>str\<close>: the string must be ASCII. The bytes it returns are
  UTF-8 text here, which \<^verbatim>\<open>.decode("utf-8")\<close> and the write to a file opened in text mode
  hand on unchanged.
\<close>

definition b64decode :: "string \<Rightarrow> string option" where
  "b64decode s =
     (if list_ex (\<lambda>c. (of_char c :: nat) \<ge> 128) s then None else a2b_base64 0 0 0 [] s)"

subsection \<open>\<^verbatim>\<open>JSON.stringify\<close> of a string\<close>

definition hex_digit :: "nat \<Rightarrow> char" where
  "hex_digit d = (if d < 10 then char_of (48 + d) else char_of (87 + d))"

text \<open>
  \<^verbatim>\<open>QuoteJSONString\<close> of ECMA-262, on the UTF-8 bytes of the text: backspace, tab, line feed,
  form feed, carriage return, the double quote and the backslash get their two-character
  escapes; any other character below \<^verbatim>\<open>0x20\<close> becomes a backslash, \<^verbatim>\<open>u00\<close> and two lower-case
  hexadecimal digits; everything else is copied (a text read by \<^verbatim>\<open>readFileSync\<close> holds no
  lone surrogate).
\<close>

definition json_escape :: "char \<Rightarrow> string" where
  "json_escape c =
     (let n = (of_char c :: nat)
      in if n = 8 then [CHR 0x5C, CHR ''b'']
         else if n = 9 then [CHR 0x5C, CHR ''t'']
         else if n = 10 then [CHR 0x5C, CHR ''n'']
         else if n = 12 then [CHR 0x5C, CHR ''f'']
         else if n = 13 then [CHR 0x5C, CHR ''r'']
         else if n = 34 then [CHR 0x5C, CHR 0x22]
         else if n = 92 then [CHR 0x5C, CHR 0x5C]
         else if n < 32 then
           [CHR 0x5C, CHR ''u'', CHR ''0'', CHR ''0'', hex_digit (n div 16), hex_digit (n mod 16)]
         else [c])"

definition JSON_stringify :: "string \<Rightarrow> string" where
  "JSON_stringify s = CHR 0x22 # concat (map json_escape s) @ [CHR 0x22]"

subsection \<open>String literals in the Python source handed to the runtime\<close>

definition hex_value :: "char \<Rightarrow> nat option" where
  "hex_value c =
     (let n = (of_char c :: nat)
      in if 48 \<le> n \<and> n \<le> 57 then Some (n - 48)
         else if 97 \<le> n \<and> n \<le> 102 then Some (n - 87)
         else if 65 \<le> n \<and> n \<le> 70 then Some (n - 55)
         else None)"

definition hex4 :: "char \<Rightarrow> char \<Rightarrow> char \<Rightarrow> char \<Rightarrow> nat option" where
  "hex4 h1 h2 h3 h4 =
     (case (hex_value h1, hex_value h2, hex_value h3, hex_value h4) of
        (Some d1, Some d2, Some d3, Some d4) \<Rightarrow> Some (((d1 * 16 + d2) * 16 + d3) * 16 + d4)
      | _ \<Rightarrow> None)"

text \<open>
  The UTF-8 bytes of a code point below \<^verbatim>\<open>0x10000\<close>; a surrogate has none (writing it to
  the file fails).
\<close>

definition utf8_encode :: "nat \<Rightarrow> string option" where
  "utf8_encode n =
     (if n < 128 then Some [char_of n]
      else if n < 2048 then Some [char_of (192 + n div 64), char_of (128 + n mod 64)]
      else if 55296 \<le> n \<and> n < 57344 then None
      else Some [char_of (224 + n div 4096), char_of (128 + (n div 64) mod 64),
                 char_of (128 + n mod 64)])"

text \<open>
  The body of a single-line Python string literal, after the opening quote: the text up to
  the closing quote, with its escapes read, and the source after the literal. A line end
  or a NUL inside the literal is a syntax error. The escapes read are those
  \<^verbatim>\<open>JSON.stringify\<close> writes (backslash, quotes, \<^verbatim>\<open>n r t b f\<close>, and \<^verbatim>\<open>u\<close> with four hexadecimal
  digits); on any other escape the model gives up (\<open>None\<close>), where Python knows a few more.
\<close>

fun py_string_body :: "char \<Rightarrow> string \<Rightarrow> string \<Rightarrow> (string \<times> string) option" where
  "py_string_body quote acc [] = None"
| "py_string_body quote acc (c # cs) =
     (if c = quote then Some (rev acc, cs)
      else if c = CHR 0x5C then
        (case cs of
           [] \<Rightarrow> None
         | e # cs1 \<Rightarrow>
             if e = CHR 0x5C \<or> e = CHR 0x27 \<or> e = CHR 0x22 then
               py_string_body quote (e # acc) cs1
             else if e = CHR ''n'' then py_string_body quote (CHR 0x0A # acc) cs1
             else if e = CHR ''r'' then py_string_body quote (CHR 0x0D # acc) cs1
             else if e = CHR ''t'' then py_string_body quote (CHR 0x09 # acc) cs1
             else if e = CHR ''b'' then py_string_body quote (CHR 0x08 # acc) cs1
             else if e = CHR ''f'' then py_string_body quote (CHR 0x0C # acc) cs1
             else if e = CHR ''u'' then
               (case cs1 of
                  h1 # h2 # h3 # h4 # cs2 \<Rightarrow>
                    (case hex4 h1 h2 h3 h4 of
                       None \<Rightarrow> None
                     | Some n \<Rightarrow>
                         (case utf8_encode n of
                            None \<Rightarrow> None
                          | Some bytes \<Rightarrow> py_string_body quote (rev bytes @ acc) cs2))
                | _ \<Rightarrow> None)
             else None)
      else if c = CHR 0x0A \<or> c = CHR 0x0D \<or> c = CHR 0x00 then None
      else py_string_body quote (c # acc) cs)"

text \<open>
  A string literal at the start of a source text: a single or a double quote opens it;
  three quotes in a row would open a triple-quoted literal, which the templates never
  intend (\<open>None\<close>).
\<close>

definition py_string_literal :: "string \<Rightarrow> (string \<times> string) option" where
  "py_string_literal src =
     (case src of
        [] \<Rightarrow> None
      | quote # rest \<Rightarrow>
          if quote \<noteq> CHR 0x27 \<and> quote \<noteq> CHR 0x22 then None
          else if take 2 rest = [quote, quote] then None
          else py_string_body quote [] rest)"

text \<open>
  The value of a literal interpolated into a template: the source from the interpolation
  on must read as one literal followed by exactly the rest of the template's line;
  otherwise the script is not the one the template intends, and the model has it throw.
\<close>

definition py_literal_value :: "string \<Rightarrow> string \<Rightarrow> string option" where
  "py_literal_value src tail =
     (case py_string_literal src of
        None \<Rightarrow> None
      | Some (text, rest) \<Rightarrow> if rest = tail then Some text else None)"

subsection \<open>The path argument of a script\<close>

text \<open>
  The templates put a path between single quotes: \<^verbatim>\<open>'${pyodidePath}'\<close>. Python reads the text
  from the opening quote on as an expression. The model reads it when it is a sequence of
  string literals, adjacent or joined by \<^verbatim>\<open>+\<close>, blanks allowed between them, that ends with
  the closing quote of the template: the value is then the concatenation of the literals.
  A plain path (no quote, no backslash, no line break) is the simplest case, and its value
  is the path itself.
\<close>

definition py_blank :: "char \<Rightarrow> bool" where
  "py_blank c = (c = CHR '' '' \<or> c = CHR 0x09 \<or> c = CHR 0x0C)"

function py_literals :: "string \<Rightarrow> string \<Rightarrow> string option" where
  "py_literals acc src =
     (case py_string_literal src of
        None \<Rightarrow> None
      | Some (text, rest) \<Rightarrow>
          if rest = [] then Some (acc @ text)
          else
            let rest1 = dropWhile py_blank rest;
                rest2 = (if take 1 rest1 = ''+'' then dropWhile py_blank (drop 1 rest1) else rest1)
            in py_literals (acc @ text) rest2)"
  by pat_completeness auto
termination
proof (relation "measure (\<lambda>(acc, src). length src)", goal_cases)
  case 1
  show ?case by simp
next
  case (2 acc src x2 lit rest rest1 rest2)
  have body: "py_string_body q a cs = Some (t, u) \<Longrightarrow> length u \<le> length cs" for q a cs t u
  proof (induction cs arbitrary: a t u rule: length_induct)
    case (1 cs)
    then have IH: "\<And>cs' a t u. py_string_body q a cs' = Some (t, u) \<Longrightarrow> length cs' < length cs \<Longrightarrow>
        length u \<le> length cs'" by blast
    show ?case
    proof (cases cs)
      case Nil
      then show ?thesis using 1(2) by simp
    next
      case (Cons c cs0)
      show ?thesis
        using 1(2) unfolding Cons
        by (auto split: if_splits list.splits option.splits dest!: IH simp: Cons)
    qed
  qed
  have "length rest < length src"
    using 2(1,2)
    by (auto simp: py_string_literal_def split: list.splits if_splits dest!: body)
  moreover have "length rest2 \<le> length rest"
  proof -
    have d: "length (dropWhile py_blank xs) \<le> length xs" for xs :: string
      by (rule length_dropWhile_le)
    have "length (dropWhile py_blank (drop 1 rest1)) \<le> length (drop 1 rest1)" by (rule d)
    also have "\<dots> \<le> length rest1" by simp
    finally have "length rest2 \<le> length rest1" unfolding 2(5) by simp
    then show ?thesis using d [of rest] unfolding 2(4) by simp
  qed
  ultimately show ?case by simp
qed

text \<open>
  Any other text (a quote that closes the literal early and is followed by something else,
  an escape or a line break) makes a script that the template does not intend; what
  Python makes of it is the parameter \<open>pythonReads\<close> of the runtime. The model takes such a
  script to go on as its template says with the path that \<open>pythonReads\<close> gives.
\<close>

definition py_path :: "(string \<Rightarrow> path option) \<Rightarrow> string \<Rightarrow> path option" where
  "py_path reads pathText =
     (case py_literals [] ([CHR 0x27] @ pathText @ [CHR 0x27]) of
        Some p \<Rightarrow> Some p
      | None \<Rightarrow> reads pathText)"

subsection \<open>The virtual filesystem\<close>

text \<open>
  The working directory of the runtime is \<^verbatim>\<open>/home/pyodide\<close>, the home directory that
  \<^verbatim>\<open>loadPyodide()\<close> sets up when it is called without options, as \<^verbatim>\<open>src/pyodideLoader.js\<close> does;
  no script changes it.
\<close>

definition home :: place where
  "home = [''home'', ''pyodide'']"

text \<open>
  The place that a path names: its components are followed from the root, or from the
  working directory when the path is relative (the place so far is kept in reverse). Empty
  components and \<^verbatim>\<open>.\<close> stay where they are; \<^verbatim>\<open>..\<close> goes to the parent, and the root is its own
  parent.
\<close>

definition startPlace :: "path \<Rightarrow> string list" where
  "startPlace p = (if take 1 p = ''/'' then [] else rev home)"

fun follow :: "string list \<Rightarrow> string list \<Rightarrow> place" where
  "follow cur [] = rev cur"
| "follow cur (s # ss) =
     (if s = [] \<or> s = ''.'' then follow cur ss
      else if s = ''..'' then follow (tl cur) ss
      else follow (s # cur) ss)"

definition resolve :: "path \<Rightarrow> place" where
  "resolve p = follow (startPlace p) (split_slash p)"

text \<open>
  What is at a place: the file last written there, with its content; a directory when one
  has been made there, and at the working directory and above it.
\<close>

definition fileAt :: "pyodide \<Rightarrow> place \<Rightarrow> string option" where
  "fileAt py k = map_of (files py) k"

definition isFileAt :: "pyodide \<Rightarrow> place \<Rightarrow> bool" where
  "isFileAt py k = (fileAt py k \<noteq> None)"

definition isDirectoryAt :: "pyodide \<Rightarrow> place \<Rightarrow> bool" where
  "isDirectoryAt py k = (k \<in> set (directories py) \<or> k \<in> set [[], [''home''], home])"


text \<open>
  \<^verbatim>\<open>os.makedirs(p, exist_ok=True)\<close>: the directories on the way to \<open>p\<close>, and \<open>p\<close> itself, are made
  one after the other where they are missing. It raises on the empty path
  (\<^verbatim>\<open>FileNotFoundError\<close>), on a path with a NUL (\<^verbatim>\<open>ValueError\<close>), and where a file is in the
  way or the filesystem refuses the directory; the directories made before that stay.
\<close>

fun mkdirs :: "pyodide \<Rightarrow> string list \<Rightarrow> string list \<Rightarrow> error option \<times> pyodide" where
  "mkdirs py cur [] = (None, py)"
| "mkdirs py cur (s # ss) =
     (if s = [] \<or> s = ''.'' then mkdirs py cur ss
      else
        let cur1 = (if s = ''..'' then tl cur else s # cur)
        in if isDirectoryAt py (rev cur1) then mkdirs py cur1 ss
           else if isFileAt py (rev cur1) \<or> refuses py (rev cur1) then (Some pythonError, py)
           else mkdirs (py\<lparr>directories := rev cur1 # directories py\<rparr>) cur1 ss)"

definition os_makedirs :: "pyodide \<Rightarrow> path \<Rightarrow> error option \<times> pyodide" where
  "os_makedirs py p =
     (if p = [] \<or> CHR 0x00 \<in> set p then (Some pythonError, py)
      else mkdirs py (startPlace p) (split_slash p))"

text \<open>
  \<^verbatim>\<open>with open(p, 'w') as f: f.write(text)\<close>, after \<^verbatim>\<open>os.makedirs\<close> has made the directory of
  \<open>p\<close>: it raises where \<open>p\<close> names a directory (\<^verbatim>\<open>IsADirectoryError\<close>) or the filesystem refuses
  the file; otherwise the file holds \<open>text\<close>, whatever it held before.
\<close>

definition open_write :: "pyodide \<Rightarrow> path \<Rightarrow> string \<Rightarrow> error option \<times> pyodide" where
  "open_write py p text =
     (if isDirectoryAt py (resolve p) \<or> refuses py (resolve p) then (Some pythonError, py)
      else (None, py\<lparr>files := (resolve p, text) # files py\<rparr>))"

subsection \<open>The scripts\<close>

text \<open>\<^verbatim>\<open>os.path.dirname\<close> of Python (POSIX).\<close>

definition py_dirname :: "path \<Rightarrow> path" where
  "py_dirname p =
     (let head = rev (dropWhile (\<lambda>c. c \<noteq> CHR ''/'') (rev p))
      in if head \<noteq> [] \<and> \<not> list_all (\<lambda>c. c = CHR ''/'') head
         then rev (dropWhile (\<lambda>c. c = CHR ''/'') (rev head))
         else head)"

text \<open>
  The script of \<^verbatim>\<open>createPyodideDirectory(pyodide, pyodidePath)\<close>:
  \<^verbatim>\<open>os.makedirs('${pyodidePath}', exist_ok=True)\<close>. The result is the error thrown, if any, and
  the runtime as the script leaves it.
\<close>

definition createPyodideDirectory :: "pyodide \<Rightarrow> path \<Rightarrow> error option \<times> pyodide" where
  "createPyodideDirectory py pyodidePath =
     (case py_path (pythonReads py) pyodidePath of
        None \<Rightarrow> (Some pythonError, py)
      | Some p \<Rightarrow> os_makedirs py p)"

text \<open>
  The two scripts that write a file, with the path text \<open>targetPath\<close> and the value of the
  interpolated content expression (\<open>None\<close> when the expression cannot be read or raises):
  \<^verbatim>\<open>os.makedirs(os.path.dirname('${targetPath}'), exist_ok=True)\<close>, then
  \<^verbatim>\<open>with open('${targetPath}', 'w') as f: f.write(...)\<close>. A script whose path or content
  expression has no value is taken to throw before it changes anything.
\<close>

definition py_write :: "pyodide \<Rightarrow> path \<Rightarrow> string option \<Rightarrow> error option \<times> pyodide" where
  "py_write py targetPath val =
     (case py_path (pythonReads py) targetPath of
        None \<Rightarrow> (Some pythonError, py)
      | Some p \<Rightarrow>
          (case val of
             None \<Rightarrow> (Some pythonError, py)
           | Some text \<Rightarrow>
               (case os_makedirs py (py_dirname p) of
                  (Some e, py1) \<Rightarrow> (Some e, py1)
                | (None, py1) \<Rightarrow> open_write py1 p text)))"

text \<open>
  The expression of \<^verbatim>\<open>copyFileToPyodide\<close>: the Base64 text between single quotes, followed by
  the rest of the line, \<^verbatim>\<open>).decode('utf-8'))\<close>; its value is the decoded text.
\<close>

definition b64_line_rest :: string where
  "b64_line_rest = '').decode('' @ [CHR 0x27] @ ''utf-8'' @ [CHR 0x27] @ ''))''"

definition py_b64_expression :: "string \<Rightarrow> string option" where
  "py_b64_expression base64Content =
     (case py_literal_value ([CHR 0x27] @ base64Content @ [CHR 0x27] @ b64_line_rest) b64_line_rest of
        None \<Rightarrow> None
      | Some text \<Rightarrow> b64decode text)"

text \<open>
  The expression of \<^verbatim>\<open>loadFolder\<close>: the JSON text, which Python reads as a string literal,
  followed by the closing parenthesis of \<^verbatim>\<open>f.write(\<close>.
\<close>

definition py_json_expression :: "string \<Rightarrow> string option" where
  "py_json_expression escapedContent = py_literal_value (escapedContent @ '')'') '')''"

section \<open>FsBridge: \<^verbatim>\<open>src/pyodideFs.js\<close>\<close>

text \<open>\<^verbatim>\<open>s.replace(/\\/g, "/")\<close>: every backslash becomes a slash.\<close>

definition replace_backslashes :: "string \<Rightarrow> string" where
  "replace_backslashes s = map (\<lambda>c. if c = CHR 0x5C then CHR ''/'' else c) s"

text \<open>
  \<^verbatim>\<open>copyFileToPyodide(pyodide, sourcePath, targetPath)\<close>, with what the host holds at
  \<open>sourcePath\<close> in place of the path. The result is the error thrown, if any, and the
  runtime as the call leaves it.
\<close>

definition copyFileToPyodide :: "pyodide \<Rightarrow> node \<Rightarrow> path \<Rightarrow> error option \<times> pyodide" where
  "copyFileToPyodide py source targetPath =
     (case readFileSync source of
        None \<Rightarrow> (Some (Error ''readFileSync''), py)
      | Some content \<Rightarrow>
          (let base64Content = base64_encode content
           in py_write py targetPath (py_b64_expression base64Content)))"

text \<open>
  \<^verbatim>\<open>processDirectory(pyodide, currentDir, pyodidePath)\<close>, with what the host holds at
  \<open>currentDir\<close> beside the path, and the \<^verbatim>\<open>for\<close> loop over the listing as \<open>processFiles\<close>.
  The result of \<open>processDirectory\<close> has three parts: the count it returns, or the error of
  \<^verbatim>\<open>createPyodideDirectory\<close>, which is outside the \<^verbatim>\<open>try\<close>; the errors that the \<^verbatim>\<open>catch\<close> clauses
  of the call and of the calls below it have caught and logged with \<^verbatim>\<open>console.warn\<close>, each
  with the directory named in the warning, in the order of the warnings; and the runtime
  as the call leaves it. The loop gives the error thrown inside it, if any, the count at
  that point, the errors caught below it, and the runtime.
\<close>

type_synonym caught = "(path \<times> error) list"

fun processDirectory :: "pyodide \<Rightarrow> node \<Rightarrow> path \<Rightarrow> path \<Rightarrow> (error + nat) \<times> caught \<times> pyodide"
  and processFiles ::
    "pyodide \<Rightarrow> (string \<times> node) list \<Rightarrow> path \<Rightarrow> path \<Rightarrow> nat
      \<Rightarrow> error option \<times> nat \<times> caught \<times> pyodide"
where
  "processDirectory py current currentDir pyodidePath =
     (case createPyodideDirectory py pyodidePath of
        (Some e, py1) \<Rightarrow> (Inl e, [], py1)
      | (None, py1) \<Rightarrow>
          (case current of
             Dir entries \<Rightarrow>
               (case processFiles py1 entries currentDir pyodidePath 0 of
                  (None, pythonFileCount, warnings, py2) \<Rightarrow> (Inr pythonFileCount, warnings, py2)
                | (Some e, pythonFileCount, warnings, py2) \<Rightarrow>
                    (Inr pythonFileCount, warnings @ [(currentDir, e)], py2))
           | _ \<Rightarrow> (Inr 0, [(currentDir, Error ''readdirSync'')], py1)))"
| "processFiles py [] currentDir pyodidePath pythonFileCount = (None, pythonFileCount, [], py)"
| "processFiles py ((file, entry) # rest) currentDir pyodidePath pythonFileCount =
     (if startsWith file ''.'' then processFiles py rest currentDir pyodidePath pythonFileCount
      else
        let fullPath = path_join [currentDir, file];
            pyodideFilePath = replace_backslashes (path_join [pyodidePath, file])
        in (case statIsDirectory entry of
              None \<Rightarrow> (Some (Error ''statSync''), pythonFileCount, [], py)
            | Some True \<Rightarrow>
                (case processDirectory py entry fullPath pyodideFilePath of
                   (Inl e, warnings, py1) \<Rightarrow> (Some e, pythonFileCount, warnings, py1)
                 | (Inr n, warnings, py1) \<Rightarrow>
                     (case processFiles py1 rest currentDir pyodidePath (pythonFileCount + n) of
                        (thrown, count, later, py2) \<Rightarrow> (thrown, count, warnings @ later, py2)))
            | Some False \<Rightarrow>
                if endsWith file ''.py'' then
                  (case copyFileToPyodide py entry pyodideFilePath of
                     (Some e, py1) \<Rightarrow> (Some e, pythonFileCount, [], py1)
                   | (None, py1) \<Rightarrow>
                       processFiles py1 rest currentDir pyodidePath (pythonFileCount + 1))
                else processFiles py rest currentDir pyodidePath pythonFileCount))"

text \<open>\<^verbatim>\<open>locateDirectory(dir)\<close>.\<close>

definition locateDirectory :: "host \<Rightarrow> path \<Rightarrow> error + path" where
  "locateDirectory h dir =
     (if existsSync h dir then Inr dir
      else
        let parentDir = path_join [''..'', dir]
        in if existsSync h parentDir then Inr parentDir
           else Inl (Error (''Could not find directory at '' @ dir @ '' or '' @ parentDir)))"

text \<open>
  \<^verbatim>\<open>loadPythonModules(pyodide, dir, targetDirName)\<close>; the result has the parts of the result
  of \<open>processDirectory\<close>.
\<close>

definition loadPythonModules ::
  "pyodide \<Rightarrow> host \<Rightarrow> path \<Rightarrow> string option \<Rightarrow> (error + nat) \<times> caught \<times> pyodide" where
  "loadPythonModules py h dir targetDirName =
     (case locateDirectory h dir of
        Inl e \<Rightarrow> (Inl e, [], py)
      | Inr moduleDir \<Rightarrow>
          (let dirBaseName =
                 (case targetDirName of
                    None \<Rightarrow> basename moduleDir
                  | Some name \<Rightarrow> if name \<noteq> [] then name else basename moduleDir)
           in (case createPyodideDirectory py (''./'' @ dirBaseName) of
                 (Some e, py1) \<Rightarrow> (Inl e, [], py1)
               | (None, py1) \<Rightarrow>
                   processDirectory py1 (lookup h moduleDir) moduleDir (''./'' @ dirBaseName))))"

text \<open>
  \<^verbatim>\<open>loadFolder(pyodide, folderPath, destPath)\<close>, with what the host holds at \<open>folderPath\<close>
  beside the path, and its \<^verbatim>\<open>for\<close> loop as \<open>loadFolderFiles\<close>. Nothing is caught here:
  the first error ends the whole call. The result is the error thrown, if any, and the
  runtime as the call leaves it.
\<close>

fun loadFolder :: "pyodide \<Rightarrow> node \<Rightarrow> path \<Rightarrow> path \<Rightarrow> error option \<times> pyodide"
  and loadFolderFiles ::
    "pyodide \<Rightarrow> (string \<times> node) list \<Rightarrow> path \<Rightarrow> path \<Rightarrow> error option \<times> pyodide"
where
  "loadFolder py folder folderPath destPath =
     (if statIsDirectory folder = None then
        (Some (Error (''Folder '' @ folderPath @ '' does not exist'')), py)
      else
        (case createPyodideDirectory py destPath of
           (Some e, py1) \<Rightarrow> (Some e, py1)
         | (None, py1) \<Rightarrow>
             (case folder of
                Dir entries \<Rightarrow> loadFolderFiles py1 entries folderPath destPath
              | _ \<Rightarrow> (Some (Error ''readdirSync''), py1))))"
| "loadFolderFiles py [] folderPath destPath = (None, py)"
| "loadFolderFiles py ((file, entry) # rest) folderPath destPath =
     (let fullPath = path_join [folderPath, file];
          destFilePath = replace_backslashes (path_join [destPath, file])
      in (case statIsDirectory entry of
            None \<Rightarrow> (Some (Error ''statSync''), py)
          | Some True \<Rightarrow>
              (case loadFolder py entry fullPath destFilePath of
                 (Some e, py1) \<Rightarrow> (Some e, py1)
               | (None, py1) \<Rightarrow> loadFolderFiles py1 rest folderPath destPath)
          | Some False \<Rightarrow>
              (case readFileSync entry of
                 None \<Rightarrow> (Some (Error ''readFileSync''), py)
               | Some content \<Rightarrow>
                   (let escapedContent = JSON_stringify content
                    in (case py_write py destFilePath (py_json_expression escapedContent) of
                          (Some e, py1) \<Rightarrow> (Some e, py1)
                        | (None, py1) \<Rightarrow> loadFolderFiles py1 rest folderPath destPath)))))"

section \<open>Vocabulary of the properties\<close>

text \<open>
  A candidate path is usable when it is supplied (a non-empty string) and exists on the
  host; likewise a custom script path.
\<close>

definition candidateUsable :: "host \<Rightarrow> options \<Rightarrow> bool" where
  "candidateUsable h opts =
     (case pythonModulePath opts of None \<Rightarrow> False | Some p \<Rightarrow> p \<noteq> [] \<and> existsSync h p)"

definition customScriptUsable :: "host \<Rightarrow> options \<Rightarrow> bool" where
  "customScriptUsable h opts =
     (case customScriptPath opts of None \<Rightarrow> False | Some p \<Rightarrow> p \<noteq> [] \<and> existsSync h p)"

text \<open>
  A text has an unclosed \<^verbatim>\<open>${\<close> when \<^verbatim>\<open>${\<close> occurs in it with no \<^verbatim>\<open>}\<close> anywhere after it: that
  is, \<^verbatim>\<open>${\<close> occurs in what follows the last \<^verbatim>\<open>}\<close> of the text.
\<close>

definition unclosed :: "string \<Rightarrow> bool" where
  "unclosed s = includes_str (rev (takeWhile (\<lambda>c. c \<noteq> CHR ''}'') (rev s))) ''${''"

text \<open>
  The characters of Base64 text lie between \<^verbatim>\<open>+\<close> and \<^verbatim>\<open>z\<close> and are no backslash: none of
  them ends a quoted Python literal or starts an escape in it.
\<close>

definition b64text :: "char \<Rightarrow> bool" where
  "b64text c =
     (43 \<le> (of_char c :: nat) \<and> (of_char c :: nat) \<le> 122 \<and> (of_char c :: nat) \<noteq> 92)"


text \<open>
  The files of a host tree: each with the names that lead to it from the root of the tree,
  and its content. Only what can be read is listed.
\<close>

fun allFiles :: "node \<Rightarrow> (string list \<times> string) list"
  and allFilesIn :: "(string \<times> node) list \<Rightarrow> (string list \<times> string) list"
where
  "allFiles (File content) = [([], content)]"
| "allFiles (Dir entries) = allFilesIn entries"
| "allFiles UnreadableFile = []"
| "allFiles UnreadableDir = []"
| "allFiles Missing = []"
| "allFilesIn [] = []"
| "allFilesIn ((name, entry) # rest) =
     map (\<lambda>(names, content). (name # names, content)) (allFiles entry) @ allFilesIn rest"

text \<open>
  A file is staged when its own name ends in \<^verbatim>\<open>.py\<close> and no name on the way to it, its own
  included, begins with a dot.
\<close>

definition isStaged :: "string list \<times> string \<Rightarrow> bool" where
  "isStaged f =
     (fst f \<noteq> [] \<and> endsWith (last (fst f)) ''.py''
      \<and> list_all (\<lambda>name. \<not> startsWith name ''.'') (fst f))"

definition stagedFiles :: "node \<Rightarrow> (string list \<times> string) list" where
  "stagedFiles root = filter isStaged (allFiles root)"

text \<open>
  The virtual path text that mirrors a file: the target directory extended name by name,
  as the walks extend it.
\<close>

definition virtualPath :: "path \<Rightarrow> string list \<Rightarrow> path" where
  "virtualPath target names =
     foldl (\<lambda>p name. replace_backslashes (path_join [p, name])) target names"

text \<open>
  The place where a file lands whose script is given the path text \<open>pathText\<close>: the place
  named by the path that Python reads; none when the script throws on the text.
\<close>

definition landing :: "(string \<Rightarrow> path option) \<Rightarrow> string \<Rightarrow> place option" where
  "landing reads pathText = map_option resolve (py_path reads pathText)"

text \<open>
  The writes that mirror a list of files under a target directory, in the order of the
  list: each file at the place where its mirrored path lands, with its content.
\<close>

definition planned ::
  "(string \<Rightarrow> path option) \<Rightarrow> path \<Rightarrow> (string list \<times> string) list
     \<Rightarrow> (place option \<times> string) list" where
  "planned reads target fs = map (\<lambda>f. (landing reads (virtualPath target (fst f)), snd f)) fs"

text \<open>Files of the runtime, each with its place, in the form of \<open>planned\<close>.\<close>

definition placed :: "(place \<times> string) list \<Rightarrow> (place option \<times> string) list" where
  "placed ws = map (\<lambda>w. (Some (fst w), snd w)) ws"

text \<open>
  The directory that \<open>locateDirectory\<close> settles on when it finds one: the directory itself,
  or else the directory of that name beside the working directory of the host.
\<close>

definition located :: "host \<Rightarrow> path \<Rightarrow> path" where
  "located h dir = (if existsSync h dir then dir else path_join [''..'', dir])"

text \<open>The directory of the runtime in which \<open>loadPythonModules\<close> stages the files.\<close>

definition stagingPath :: "host \<Rightarrow> path \<Rightarrow> string option \<Rightarrow> path" where
  "stagingPath h dir targetDirName =
     ''./'' @ (case targetDirName of
                 None \<Rightarrow> basename (located h dir)
               | Some name \<Rightarrow> if name \<noteq> [] then name else basename (located h dir))"

text \<open>A host tree with every hidden entry, and all that lies under it, removed.\<close>

fun withoutHidden :: "node \<Rightarrow> node"
  and withoutHiddenIn :: "(string \<times> node) list \<Rightarrow> (string \<times> node) list"
where
  "withoutHidden (Dir entries) = Dir (withoutHiddenIn entries)"
| "withoutHidden (File content) = File content"
| "withoutHidden UnreadableFile = UnreadableFile"
| "withoutHidden UnreadableDir = UnreadableDir"
| "withoutHidden Missing = Missing"
| "withoutHiddenIn [] = []"
| "withoutHiddenIn ((name, entry) # rest) =
     (if startsWith name ''.'' then withoutHiddenIn rest
      else (name, withoutHidden entry) # withoutHiddenIn rest)"


section \<open>Example hosts\<close>

text \<open>A host on which only the listed directories and files exist.\<close>

definition host_of :: "path list \<Rightarrow> path list \<Rightarrow> host" where
  "host_of dirs regular =
     \<lparr>lookup = (\<lambda>p. if p \<in> set dirs then Dir []
                     else if p \<in> set regular then File [] else Missing),
      dirname = ''/app/src'',
      cwd = ''/app'',
      env_CHUK_VIRTUAL_SHELL_PATH = None\<rparr>"

definition options_of :: "string option \<Rightarrow> string option \<Rightarrow> options" where
  "options_of modulePath scriptPath =
     \<lparr>pythonModulePath = modulePath, customScriptPath = scriptPath, defaultSandbox = None\<rparr>"

text \<open>
  A runtime as \<^verbatim>\<open>loadPyodide()\<close> hands it over: nothing made or written yet below the working
  directory, no place refused. The directories that the distribution keeps elsewhere (such
  as \<^verbatim>\<open>/lib\<close> and \<^verbatim>\<open>/tmp\<close>) are left out: no path of the examples leads there. Its Python throws
  on every path text that the model does not read itself.
\<close>

definition freshRuntime :: pyodide where
  "freshRuntime =
     \<lparr>pythonReads = (\<lambda>pathText. None), refuses = (\<lambda>k. False), directories = [], files = []\<rparr>"

text \<open>The fresh runtime after a configuration folder has been loaded into it.\<close>

definition configuredRuntime :: pyodide where
  "configuredRuntime =
     snd (loadFolder freshRuntime (Dir [(''shell.yaml'', File ''sandbox: ai_sandbox'')])
            ''/app/config'' ''/home/pyodide/config'')"

text \<open>A host on which one tree is mounted at one path, and nothing else exists.\<close>

definition host_with :: "path \<Rightarrow> node \<Rightarrow> host" where
  "host_with mount tree =
     \<lparr>lookup = (\<lambda>p. if p = mount then tree else Missing),
      dirname = ''/app/src'',
      cwd = ''/app'',
      env_CHUK_VIRTUAL_SHELL_PATH = None\<rparr>"

text \<open>
  A package directory: a module, a hidden cache directory with a module in it, a
  subdirectory with a module and a text file, and a hidden file that cannot be read.
\<close>

definition exampleTree :: node where
  "exampleTree =
     Dir [(''a.py'', File ''print(1)''),
          (''.cache'', Dir [(''x.py'', File ''cached'')]),
          (''sub'', Dir [(''b.py'', File ''pass''), (''notes.txt'', File ''text'')]),
          (''.env.py'', UnreadableFile)]"

text \<open>
  A package directory with a dangling symbolic link between two modules: \<^verbatim>\<open>statSync\<close> throws
  on the link.
\<close>

definition danglingLink :: node where
  "danglingLink =
     Dir [(''a.py'', File ''x = 1''), (''link'', Missing), (''z.py'', File ''y = 2'')]"





section \<open>Properties\<close>

lemma split_slash_nonempty: "split_slash s \<noteq> []"
  by (induction s) (auto split: list.splits)

subsection \<open>PathResolver\<close>

lemma firstValidLocation_none:
  "\<forall>location \<in> set locations. \<not> (existsSync h location \<and> isValidPythonModule h location) \<Longrightarrow>
   firstValidLocation h locations = Inl (Error notFoundMessage)"
  by (induction locations) auto

lemma possibleLocations_example:
  "possibleLocations (host_of dirs regular) =
     [''./chuk_virtual_shell'', ''../chuk_virtual_shell'', ''/app/node_modules/chuk-virtual-shell'']"
  by (simp add: possibleLocations_def host_of_def path_join_def normalize_def)

text \<open>
  C2. For every candidate path \<open>P\<close> that is supplied (a non-empty string) and exists on the
  host: when \<open>P\<close> joined with the basename of \<open>P\<close>, hyphens replaced by underscores, exists and
  is a directory, \<open>locateVirtualShellDirectory\<close> returns that inner directory; otherwise it
  returns \<open>P\<close> itself.
\<close>

theorem locate_candidate:
  assumes "pythonModulePath opts = Some P" and "P \<noteq> []" and "existsSync h P"
  shows "locateVirtualShellDirectory h opts =
     (if existsSync h (path_join [P, replace_hyphens (basename P)])
         \<and> isDirectory h (path_join [P, replace_hyphens (basename P)])
      then Inr (path_join [P, replace_hyphens (basename P)])
      else Inr P)"
  using assms by (simp add: locateVirtualShellDirectory_def Let_def)

text \<open>
  The two cases of C2 on concrete hosts: a wrapper directory \<^verbatim>\<open>/opt/chuk-virtual-shell\<close> that
  holds the directory \<^verbatim>\<open>chuk_virtual_shell\<close>, and a directory \<^verbatim>\<open>/opt/shell\<close> in which \<^verbatim>\<open>shell\<close> is a
  file.
\<close>

theorem locate_candidate_witness:
  "existsSync (host_of [''/opt/chuk-virtual-shell'', ''/opt/chuk-virtual-shell/chuk_virtual_shell''] [])
      ''/opt/chuk-virtual-shell''
   \<and> locateVirtualShellDirectory
        (host_of [''/opt/chuk-virtual-shell'', ''/opt/chuk-virtual-shell/chuk_virtual_shell''] [])
        (options_of (Some ''/opt/chuk-virtual-shell'') None)
      = Inr ''/opt/chuk-virtual-shell/chuk_virtual_shell''
   \<and> existsSync (host_of [''/opt/shell''] [''/opt/shell/shell'']) ''/opt/shell''
   \<and> locateVirtualShellDirectory (host_of [''/opt/shell''] [''/opt/shell/shell''])
        (options_of (Some ''/opt/shell'') None)
      = Inr ''/opt/shell''"
proof -
  let ?h = "host_of [''/opt/chuk-virtual-shell'', ''/opt/chuk-virtual-shell/chuk_virtual_shell''] []"
  let ?P = "''/opt/chuk-virtual-shell''"
  have o: "pythonModulePath (options_of (Some ?P) None) = Some ?P" by (simp add: options_of_def)
  have e: "existsSync ?h ?P" by (simp add: existsSync_def host_of_def)
  have n: "?P \<noteq> []" by simp
  have j: "path_join [?P, replace_hyphens (basename ?P)] = ''/opt/chuk-virtual-shell/chuk_virtual_shell''"
    by (simp add: path_join_def normalize_def replace_hyphens_def basename_def)
  have 1: "locateVirtualShellDirectory ?h (options_of (Some ?P) None)
      = Inr ''/opt/chuk-virtual-shell/chuk_virtual_shell''"
    using locate_candidate [OF o n e]
    unfolding j by (simp add: existsSync_def isDirectory_def host_of_def)
  let ?h2 = "host_of [''/opt/shell''] [''/opt/shell/shell'']"
  let ?P2 = "''/opt/shell''"
  have o2: "pythonModulePath (options_of (Some ?P2) None) = Some ?P2" by (simp add: options_of_def)
  have e2: "existsSync ?h2 ?P2" by (simp add: existsSync_def host_of_def)
  have n2: "?P2 \<noteq> []" by simp
  have j2: "path_join [?P2, replace_hyphens (basename ?P2)] = ''/opt/shell/shell''"
    by (simp add: path_join_def normalize_def replace_hyphens_def basename_def)
  have 2: "locateVirtualShellDirectory ?h2 (options_of (Some ?P2) None) = Inr ''/opt/shell''"
    using locate_candidate [OF o2 n2 e2]
    unfolding j2 by (simp add: existsSync_def isDirectory_def host_of_def)
  show ?thesis using e 1 e2 2 by simp
qed

text \<open>
  C3, as the code has it. Whenever no supplied candidate path exists and no fallback
  location both exists and passes \<open>isValidPythonModule\<close>, \<open>locateVirtualShellDirectory\<close> fails
  with an \<^verbatim>\<open>Error\<close> whose message is the fixed text \<open>notFoundMessage\<close>, whatever the locations
  attempted were.
\<close>

theorem locate_not_found:
  assumes "\<not> candidateUsable h opts"
    and "\<forall>location \<in> set (possibleLocations h).
           \<not> (existsSync h location \<and> isValidPythonModule h location)"
  shows "locateVirtualShellDirectory h opts = Inl (Error notFoundMessage)"
  using assms firstValidLocation_none [of "possibleLocations h" h]
  by (auto simp: locateVirtualShellDirectory_def candidateUsable_def split: option.splits)

theorem locate_not_found_witness:
  "\<not> candidateUsable (host_of [] []) (options_of (Some ''/opt/pkg'') None)
   \<and> locateVirtualShellDirectory (host_of [] []) (options_of (Some ''/opt/pkg'') None)
       = Inl (Error notFoundMessage)"
proof -
  have a: "\<not> candidateUsable (host_of [] []) (options_of (Some ''/opt/pkg'') None)"
    by (simp add: candidateUsable_def options_of_def existsSync_def host_of_def)
  have b: "\<forall>location \<in> set (possibleLocations (host_of [] [])).
      \<not> (existsSync (host_of [] []) location \<and> isValidPythonModule (host_of [] []) location)"
    by (simp add: existsSync_def host_of_def)
  show ?thesis using locate_not_found [OF a b] a by simp
qed

text \<open>
  C3 as stated fails: on a host where nothing exists, with the candidate \<^verbatim>\<open>/opt/pkg\<close>
  supplied, the call fails with the fixed message, and the message names neither the
  attempted fallback location \<^verbatim>\<open>./chuk_virtual_shell\<close> nor the candidate.
\<close>

theorem locate_message_counterexample:
  "locateVirtualShellDirectory (host_of [] []) (options_of (Some ''/opt/pkg'') None)
     = Inl (Error notFoundMessage)
   \<and> ''./chuk_virtual_shell'' \<in> set (possibleLocations (host_of [] []))
   \<and> \<not> includes_str notFoundMessage ''./chuk_virtual_shell''
   \<and> \<not> includes_str notFoundMessage ''/opt/pkg''"
  by (simp add: locateVirtualShellDirectory_def options_of_def existsSync_def
        possibleLocations_example notFoundMessage_def startsWith_def)
     (simp add: host_of_def)

text \<open>
  C4 fails on the code where the candidate directory itself is returned. The directory
  \<^verbatim>\<open>/opt/chuk-virtual-shell\<close> holds the package files directly; the package is resolved to
  that directory, and its import name is \<^verbatim>\<open>chuk-virtual-shell\<close>, hyphens kept, where the
  final path segment with hyphens replaced is \<^verbatim>\<open>chuk_virtual_shell\<close>.
\<close>

theorem packageName_keeps_hyphens:
  "resolvePackage
      (host_of [''/opt/chuk-virtual-shell''] [''/opt/chuk-virtual-shell/shell_interpreter.py''])
      (options_of (Some ''/opt/chuk-virtual-shell'') None)
    = Inr \<lparr>hostDirectory = ''/opt/chuk-virtual-shell'', importName = ''chuk-virtual-shell''\<rparr>
   \<and> replace_hyphens (basename ''/opt/chuk-virtual-shell'') = ''chuk_virtual_shell''"
  by (simp add: resolvePackage_def locateVirtualShellDirectory_def options_of_def existsSync_def
        isDirectory_def host_of_def path_join_def normalize_def replace_hyphens_def basename_def)

subsection \<open>ScriptStager: selection\<close>

lemma firstExisting_none:
  "\<forall>location \<in> set locations. \<not> existsSync h location \<Longrightarrow> firstExisting h locations = None"
  by (induction locations) auto

text \<open>
  C8. \<open>getScriptPath\<close> returns the custom script path whenever one is configured (a
  non-empty string) and exists on the host, whatever the requested script type. When no
  custom path is usable and no location provides a script (the script of the requested
  type is neither in the scripts directory nor at an alternate location, and the scripts
  directory holds no basic script either), it fails with the \<^verbatim>\<open>Error\<close> of message
  \<open>scriptsNotFoundMessage\<close>.
\<close>

theorem getScriptPath_selection:
  "(customScriptPath opts = Some custom \<and> custom \<noteq> [] \<and> existsSync h custom
      \<longrightarrow> getScriptPath h opts scriptType = Inr custom)
   \<and> (\<not> customScriptUsable h opts
        \<and> \<not> existsSync h (path_join [scriptBasePath h, scriptFileName scriptType])
        \<and> (\<forall>location \<in> set (alternateLocations h (scriptFileName scriptType)).
              \<not> existsSync h location)
        \<and> \<not> existsSync h (basicScriptPath h)
      \<longrightarrow> getScriptPath h opts scriptType = Inl (Error scriptsNotFoundMessage))"
  using firstExisting_none [of "alternateLocations h (scriptFileName scriptType)" h]
  by (auto simp: getScriptPath_def builtinScriptPath_def customScriptUsable_def Let_def
      split: option.splits)

theorem getScriptPath_selection_witness:
  "getScriptPath
      (host_of [] [''/opt/custom_main.py'', ''/app/python_scripts/pyodide_enhanced_main.py''])
      (options_of None (Some ''/opt/custom_main.py'')) ''enhanced'' = Inr ''/opt/custom_main.py''
   \<and> getScriptPath
      (host_of [] [''/opt/custom_main.py'', ''/app/python_scripts/pyodide_basic_main.py''])
      (options_of None (Some ''/opt/custom_main.py'')) ''basic'' = Inr ''/opt/custom_main.py''
   \<and> getScriptPath (host_of [] []) (options_of None (Some ''/opt/custom_main.py'')) ''enhanced''
       = Inl (Error scriptsNotFoundMessage)"
proof -
  let ?h1 = "host_of [] [''/opt/custom_main.py'', ''/app/python_scripts/pyodide_enhanced_main.py'']"
  let ?h2 = "host_of [] [''/opt/custom_main.py'', ''/app/python_scripts/pyodide_basic_main.py'']"
  let ?h3 = "host_of [] []"
  let ?o = "options_of None (Some ''/opt/custom_main.py'')"
  have c: "customScriptPath ?o = Some ''/opt/custom_main.py''" by (simp add: options_of_def)
  have u1: "existsSync ?h1 ''/opt/custom_main.py''" and u2: "existsSync ?h2 ''/opt/custom_main.py''"
    by (simp_all add: existsSync_def host_of_def)
  have n3: "\<not> customScriptUsable ?h3 ?o
      \<and> \<not> existsSync ?h3 (path_join [scriptBasePath ?h3, scriptFileName ''enhanced''])
      \<and> (\<forall>location \<in> set (alternateLocations ?h3 (scriptFileName ''enhanced'')).
            \<not> existsSync ?h3 location)
      \<and> \<not> existsSync ?h3 (basicScriptPath ?h3)"
    by (simp add: customScriptUsable_def options_of_def existsSync_def host_of_def)
  show ?thesis
    using getScriptPath_selection [of ?o "''/opt/custom_main.py''" ?h1 "''enhanced''"]
      getScriptPath_selection [of ?o "''/opt/custom_main.py''" ?h2 "''basic''"]
      getScriptPath_selection [of ?o "''/opt/custom_main.py''" ?h3 "''enhanced''"] u1 u2 c n3
    by simp
qed

text \<open>
  C10. When the enhanced script is requested, no custom path is usable, and the enhanced
  script is neither in the scripts directory nor at any alternate location,
  \<open>getScriptPath\<close> returns the basic script of the scripts directory
  (\<^verbatim>\<open>pyodide_basic_main.py\<close>) if that file exists, and throws only when it is missing too.
\<close>

theorem enhanced_falls_back_to_basic:
  assumes "\<not> customScriptUsable h opts"
    and "\<not> existsSync h (path_join [scriptBasePath h, ''pyodide_enhanced_main.py''])"
    and "\<forall>location \<in> set (alternateLocations h ''pyodide_enhanced_main.py'').
           \<not> existsSync h location"
  shows "getScriptPath h opts ''enhanced'' =
     (if existsSync h (path_join [scriptBasePath h, ''pyodide_basic_main.py''])
      then Inr (path_join [scriptBasePath h, ''pyodide_basic_main.py''])
      else Inl (Error scriptsNotFoundMessage))"
  using assms firstExisting_none [of "alternateLocations h ''pyodide_enhanced_main.py''" h]
  by (auto simp: getScriptPath_def builtinScriptPath_def customScriptUsable_def Let_def
      scriptFileName_def basicScriptPath_def split: option.splits)

theorem enhanced_falls_back_to_basic_witness:
  "getScriptPath (host_of [''/app/python_scripts''] [''/app/python_scripts/pyodide_basic_main.py''])
      (options_of None None) ''enhanced'' = Inr ''/app/python_scripts/pyodide_basic_main.py''
   \<and> getScriptPath (host_of [''/app/python_scripts''] [])
      (options_of None None) ''enhanced'' = Inl (Error scriptsNotFoundMessage)"
proof -
  let ?h1 = "host_of [''/app/python_scripts''] [''/app/python_scripts/pyodide_basic_main.py'']"
  let ?h2 = "host_of [''/app/python_scripts''] []"
  let ?o = "options_of None None"
  have a1: "\<not> customScriptUsable ?h1 ?o" and a2: "\<not> customScriptUsable ?h2 ?o"
    by (simp_all add: customScriptUsable_def options_of_def)
  have b1: "\<not> existsSync ?h1 (path_join [scriptBasePath ?h1, ''pyodide_enhanced_main.py''])"
    and b2: "\<not> existsSync ?h2 (path_join [scriptBasePath ?h2, ''pyodide_enhanced_main.py''])"
    by (simp_all add: scriptBasePath_def path_join_def normalize_def existsSync_def host_of_def)
  have c1: "\<forall>location \<in> set (alternateLocations ?h1 ''pyodide_enhanced_main.py'').
      \<not> existsSync ?h1 location"
    and c2: "\<forall>location \<in> set (alternateLocations ?h2 ''pyodide_enhanced_main.py'').
      \<not> existsSync ?h2 location"
    by (simp_all add: alternateLocations_def path_join_def normalize_def existsSync_def host_of_def)
  have p: "path_join [scriptBasePath ?h1, ''pyodide_basic_main.py'']
        = ''/app/python_scripts/pyodide_basic_main.py''"
    "path_join [scriptBasePath ?h2, ''pyodide_basic_main.py'']
        = ''/app/python_scripts/pyodide_basic_main.py''"
    by (simp_all add: scriptBasePath_def path_join_def normalize_def host_of_def)
  have e1: "existsSync ?h1 ''/app/python_scripts/pyodide_basic_main.py''"
    and e2: "\<not> existsSync ?h2 ''/app/python_scripts/pyodide_basic_main.py''"
    by (simp_all add: existsSync_def host_of_def)
  show ?thesis
    using enhanced_falls_back_to_basic [OF a1 b1 c1] enhanced_falls_back_to_basic [OF a2 b2 c2] e1 e2
    unfolding p by simp
qed

subsection \<open>ScriptStager: placeholder substitution\<close>

lemma matchPlaceholder_shorter:
  "matchPlaceholder s = Some (varName, rest) \<Longrightarrow> length rest < length s"
proof -
  have "length (dropWhile P t) \<le> length t" for P and t :: string
    by (simp add: length_dropWhile_le)
  then have "length (tl (dropWhile P t)) < Suc (Suc (length t))" for P and t :: string
    by (metis length_tl diff_le_self le_imp_less_Suc le_trans less_Suc_eq)
  then show "matchPlaceholder s = Some (varName, rest) \<Longrightarrow> length rest < length s"
    by (auto simp: matchPlaceholder_def Let_def split: list.splits if_splits)
qed

text \<open>What \<open>matchPlaceholder\<close> accepts: \<^verbatim>\<open>${\<close>, a non-empty name without \<^verbatim>\<open>}\<close>, then \<^verbatim>\<open>}\<close>.\<close>

lemma takeWhile_not_close:
  "CHR ''}'' \<notin> set v \<Longrightarrow> takeWhile (\<lambda>c. c \<noteq> CHR ''}'') (v @ CHR ''}'' # r) = v"
  by (induction v) auto

lemma dropWhile_not_close:
  "CHR ''}'' \<notin> set v \<Longrightarrow> dropWhile (\<lambda>c. c \<noteq> CHR ''}'') (v @ CHR ''}'' # r) = CHR ''}'' # r"
  by (induction v) auto

lemma dropWhile_no_close:
  "CHR ''}'' \<notin> set t \<Longrightarrow> dropWhile (\<lambda>c. c \<noteq> CHR ''}'') t = []"
  by (induction t) auto

lemma split_at_close:
  assumes "dropWhile (\<lambda>c. c \<noteq> CHR ''}'') t \<noteq> []"
  shows "t = takeWhile (\<lambda>c. c \<noteq> CHR ''}'') t @ CHR ''}'' # tl (dropWhile (\<lambda>c. c \<noteq> CHR ''}'') t)"
proof -
  have "hd (dropWhile (\<lambda>c. c \<noteq> CHR ''}'') t) = CHR ''}''"
    using hd_dropWhile [OF assms] by simp
  then have "dropWhile (\<lambda>c. c \<noteq> CHR ''}'') t = CHR ''}'' # tl (dropWhile (\<lambda>c. c \<noteq> CHR ''}'') t)"
    using assms by (metis list.collapse)
  then show ?thesis
    using takeWhile_dropWhile_id [of "\<lambda>c. c \<noteq> CHR ''}''" t] by metis
qed

lemma match_Some_iff:
  "matchPlaceholder s = Some (v, r) \<longleftrightarrow>
     s = ''${'' @ v @ ''}'' @ r \<and> v \<noteq> [] \<and> CHR ''}'' \<notin> set v"
proof
  assume a: "matchPlaceholder s = Some (v, r)"
  then obtain t where s: "s = CHR ''$'' # CHR ''{'' # t"
    by (cases s; cases "tl s") (auto simp: matchPlaceholder_def split: if_splits)
  from a s have v: "v = takeWhile (\<lambda>c. c \<noteq> CHR ''}'') t" and vn: "v \<noteq> []"
    and d: "dropWhile (\<lambda>c. c \<noteq> CHR ''}'') t \<noteq> []"
    and r: "r = tl (dropWhile (\<lambda>c. c \<noteq> CHR ''}'') t)"
    by (simp_all add: matchPlaceholder_def Let_def split: if_splits)
  have "t = v @ CHR ''}'' # r" using split_at_close [OF d] v r by simp
  moreover have "CHR ''}'' \<notin> set v" using v set_takeWhileD by fastforce
  ultimately show "s = ''${'' @ v @ ''}'' @ r \<and> v \<noteq> [] \<and> CHR ''}'' \<notin> set v"
    using s vn by simp
next
  assume "s = ''${'' @ v @ ''}'' @ r \<and> v \<noteq> [] \<and> CHR ''}'' \<notin> set v"
  then show "matchPlaceholder s = Some (v, r)"
    by (simp add: matchPlaceholder_def takeWhile_not_close dropWhile_not_close)
qed

lemma match_no_close: "CHR ''}'' \<notin> set s \<Longrightarrow> matchPlaceholder s = None"
proof (cases "matchPlaceholder s")
  case (Some vr)
  assume n: "CHR ''}'' \<notin> set s"
  obtain v r where "vr = (v, r)" by (cases vr)
  with Some have "s = ''${'' @ v @ ''}'' @ r" using match_Some_iff by blast
  then have "CHR ''}'' \<in> set s" by simp
  with n show ?thesis by simp
qed simp

lemma replace_no_close: "CHR ''}'' \<notin> set s \<Longrightarrow> replacePlaceholders f s = s"
proof (induction s)
  case (Cons c cs)
  have "matchPlaceholder (c # cs) = None" using Cons.prems by (rule match_no_close)
  then show ?case using Cons by simp
qed simp

lemma match_append_Some:
  assumes "matchPlaceholder s = Some (v, r)"
  shows "matchPlaceholder (s @ x) = Some (v, r @ x)"
  using assms unfolding match_Some_iff by simp

lemma match_token:
  assumes "name \<noteq> []" and "CHR ''}'' \<notin> set name"
  shows "matchPlaceholder (''${'' @ name @ ''}'' @ post) = Some (name, post)"
  using assms unfolding match_Some_iff by simp

lemma match_append_None:
  assumes "matchPlaceholder (c # cs) = None"
    and "\<not> (startsWith (c # cs) ''${'' \<and> CHR ''}'' \<notin> set cs)"
  shows "matchPlaceholder ((c # cs) @ CHR ''$'' # x) = None"
proof (cases cs)
  case Nil
  then show ?thesis by (simp add: matchPlaceholder_def)
next
  case (Cons c2 t)
  show ?thesis
  proof (cases "c = CHR ''$'' \<and> c2 = CHR ''{''")
    case False
    then show ?thesis using Cons by (auto simp: matchPlaceholder_def)
  next
    case True
    with assms(2) Cons have "CHR ''}'' \<in> set t" by (auto simp: startsWith_def)
    then have d: "dropWhile (\<lambda>c. c \<noteq> CHR ''}'') t \<noteq> []"
      by simp
    with assms(1) Cons True have "takeWhile (\<lambda>c. c \<noteq> CHR ''}'') t = []"
      by (auto simp: matchPlaceholder_def Let_def split: if_splits)
    then have "t \<noteq> [] \<and> hd t = CHR ''}''"
      using d by (cases t) (auto split: if_splits)
    then obtain t' where "t = CHR ''}'' # t'" by (cases t) auto
    then show ?thesis using Cons True by (simp add: matchPlaceholder_def)
  qed
qed

lemma match_dangling:
  assumes "CHR ''}'' \<notin> set t" and "name \<noteq> []" and "CHR ''}'' \<notin> set name"
  shows "matchPlaceholder (''${'' @ t @ ''${'' @ name @ ''}'' @ post) = Some (t @ ''${'' @ name, post)"
proof -
  have "CHR ''}'' \<notin> set (t @ ''${'' @ name)" using assms by simp
  moreover have "t @ ''${'' @ name \<noteq> []" by simp
  ultimately show ?thesis using match_token [of "t @ ''${'' @ name" post] by simp
qed

lemma replace_unknown:
  assumes n: "name \<noteq> []" "CHR ''}'' \<notin> set name"
    and keep: "\<And>v. CHR ''$'' \<in> set v \<Longrightarrow> f (''${'' @ v @ ''}'') v = ''${'' @ v @ ''}''"
    and tok: "f (''${'' @ name @ ''}'') name = ''${'' @ name @ ''}''"
  shows "replacePlaceholders f (pre @ ''${'' @ name @ ''}'' @ post)
       = replacePlaceholders f pre @ ''${'' @ name @ ''}'' @ replacePlaceholders f post"
proof (induction pre rule: length_induct)
  case (1 pre)
  define X where "X = ''${'' @ name @ ''}'' @ post"
  have IH: "replacePlaceholders f (ys @ X)
       = replacePlaceholders f ys @ ''${'' @ name @ ''}'' @ replacePlaceholders f post"
    if "length ys < length pre" for ys
    using 1 that unfolding X_def by blast
  have goal: "replacePlaceholders f (pre @ X)
       = replacePlaceholders f pre @ ''${'' @ name @ ''}'' @ replacePlaceholders f post"
  proof (cases pre)
    case Nil
    have "replacePlaceholders f X = f (''${'' @ name @ ''}'') name @ replacePlaceholders f post"
      using match_token [OF n, of post] unfolding X_def by simp
    then show ?thesis using Nil tok by simp
  next
    case (Cons c cs)
    show ?thesis
    proof (cases "matchPlaceholder (c # cs)")
      case (Some vr)
      obtain v r where vr: "vr = (v, r)" by (cases vr)
      have len: "length r < length pre"
        using Some vr Cons matchPlaceholder_shorter by blast
      have m: "matchPlaceholder (c # (cs @ X)) = Some (v, r @ X)"
        using Some vr match_append_Some [of "c # cs" v r X] by simp
      have "replacePlaceholders f (c # (cs @ X)) = f (''${'' @ v @ ''}'') v @ replacePlaceholders f (r @ X)"
        using m by simp
      moreover have "replacePlaceholders f (c # cs) = f (''${'' @ v @ ''}'') v @ replacePlaceholders f r"
        using Some vr by simp
      ultimately show ?thesis using IH [OF len] Cons by simp
    next
      case None
      show ?thesis
      proof (cases "startsWith (c # cs) ''${'' \<and> CHR ''}'' \<notin> set cs")
        case True
        then obtain t where t: "c # cs = ''${'' @ t" "CHR ''}'' \<notin> set t"
          by (cases cs) (auto simp: startsWith_def)
        have nc: "CHR ''}'' \<notin> set pre" using t Cons by simp
        have "matchPlaceholder (''${'' @ t @ X) = Some (t @ ''${'' @ name, post)"
          using match_dangling [OF t(2) n, of post] unfolding X_def by simp
        then have "replacePlaceholders f (''${'' @ t @ X)
            = f (''${'' @ (t @ ''${'' @ name) @ ''}'') (t @ ''${'' @ name) @ replacePlaceholders f post"
          by simp
        also have "\<dots> = ''${'' @ (t @ ''${'' @ name) @ ''}'' @ replacePlaceholders f post"
          using keep [of "t @ ''${'' @ name"] by simp
        finally have "replacePlaceholders f (pre @ X) = pre @ ''${'' @ name @ ''}'' @ replacePlaceholders f post"
          using Cons t by simp
        then show ?thesis using replace_no_close [OF nc, of f] by simp
      next
        case False
        have m: "matchPlaceholder (c # (cs @ X)) = None"
          using match_append_None [OF None False, of "''{'' @ name @ ''}'' @ post"] unfolding X_def by simp
        have len: "length cs < length pre" using Cons by simp
        have "replacePlaceholders f (c # (cs @ X)) = c # replacePlaceholders f (cs @ X)"
          using m by simp
        moreover have "replacePlaceholders f (c # cs) = c # replacePlaceholders f cs"
          using None by simp
        ultimately show ?thesis using IH [OF len] Cons by simp
      qed
    qed
  qed
  then show ?case unfolding X_def by simp
qed

lemma includes_str_append: "includes_str s x \<Longrightarrow> includes_str (p @ s) x"
  by (induction p) auto

lemma tail_after_close_append:
  "rev (takeWhile (\<lambda>c. c \<noteq> CHR ''}'') (rev (p @ r))) =
     (if CHR ''}'' \<in> set r then rev (takeWhile (\<lambda>c. c \<noteq> CHR ''}'') (rev r))
      else rev (takeWhile (\<lambda>c. c \<noteq> CHR ''}'') (rev p)) @ r)"
  by (auto simp: takeWhile_append)

lemma takeWhile_no_close:
  "CHR ''}'' \<notin> set t \<Longrightarrow> takeWhile (\<lambda>c. c \<noteq> CHR ''}'') t = t"
  by (induction t) auto

lemma unclosed_append:
  assumes "unclosed r"
  shows "unclosed (p @ r)"
proof (cases "CHR ''}'' \<in> set r")
  case True
  then show ?thesis using assms unfolding unclosed_def tail_after_close_append by simp
next
  case False
  then have "CHR ''}'' \<notin> set (rev r)" by simp
  then have "takeWhile (\<lambda>c. c \<noteq> CHR ''}'') (rev r) = rev r"
    by (rule takeWhile_no_close)
  then have "rev (takeWhile (\<lambda>c. c \<noteq> CHR ''}'') (rev r)) = r"
    by (simp only: rev_rev_ident)
  then have "includes_str r ''${''" using assms unfolding unclosed_def by (simp only:)
  then have "includes_str (rev (takeWhile (\<lambda>c. c \<noteq> CHR ''}'') (rev p)) @ r) ''${''"
    by (rule includes_str_append)
  then show ?thesis using False unfolding unclosed_def tail_after_close_append by simp
qed

lemma unclosed_dangling:
  assumes "CHR ''}'' \<notin> set t"
  shows "unclosed (''${'' @ t)"
proof -
  have "CHR ''}'' \<notin> set (rev (''${'' @ t))" using assms by simp
  then have "takeWhile (\<lambda>c. c \<noteq> CHR ''}'') (rev (''${'' @ t)) = rev (''${'' @ t)"
    by (rule takeWhile_no_close)
  then have eq: "rev (takeWhile (\<lambda>c. c \<noteq> CHR ''}'') (rev (''${'' @ t))) = ''${'' @ t"
    by (simp only: rev_rev_ident)
  have "includes_str (''${'' @ t) ''${''" by (simp add: startsWith_def)
  then show ?thesis unfolding unclosed_def eq .
qed

lemma replace_closed:
  assumes n: "name \<noteq> []" "CHR ''}'' \<notin> set name"
  shows "\<not> unclosed pre \<Longrightarrow> replacePlaceholders f (pre @ ''${'' @ name @ ''}'' @ post)
       = replacePlaceholders f pre @ f (''${'' @ name @ ''}'') name @ replacePlaceholders f post"
proof (induction pre rule: length_induct)
  case (1 pre)
  define X where "X = ''${'' @ name @ ''}'' @ post"
  have IH: "replacePlaceholders f (ys @ X)
       = replacePlaceholders f ys @ f (''${'' @ name @ ''}'') name @ replacePlaceholders f post"
    if "length ys < length pre" and "\<not> unclosed ys" for ys
    using 1 that unfolding X_def by blast
  have closed: "\<not> unclosed ys" if "pre = p @ ys" for p ys
    using 1(2) that unclosed_append by blast
  have goal: "replacePlaceholders f (pre @ X)
       = replacePlaceholders f pre @ f (''${'' @ name @ ''}'') name @ replacePlaceholders f post"
  proof (cases pre)
    case Nil
    have "replacePlaceholders f X = f (''${'' @ name @ ''}'') name @ replacePlaceholders f post"
      using match_token [OF n, of post] unfolding X_def by simp
    then show ?thesis using Nil by simp
  next
    case (Cons c cs)
    show ?thesis
    proof (cases "matchPlaceholder (c # cs)")
      case (Some vr)
      obtain v r where vr: "vr = (v, r)" by (cases vr)
      have len: "length r < length pre"
        using Some vr Cons matchPlaceholder_shorter by blast
      have "pre = (''${'' @ v @ ''}'') @ r"
        using Some vr Cons match_Some_iff [of "c # cs" v r] by simp
      then have cl: "\<not> unclosed r" by (rule closed)
      have m: "matchPlaceholder (c # (cs @ X)) = Some (v, r @ X)"
        using Some vr match_append_Some [of "c # cs" v r X] by simp
      have "replacePlaceholders f (c # (cs @ X)) = f (''${'' @ v @ ''}'') v @ replacePlaceholders f (r @ X)"
        using m by simp
      moreover have "replacePlaceholders f (c # cs) = f (''${'' @ v @ ''}'') v @ replacePlaceholders f r"
        using Some vr by simp
      ultimately show ?thesis using IH [OF len cl] Cons by simp
    next
      case None
      have not_dangling: "\<not> (startsWith (c # cs) ''${'' \<and> CHR ''}'' \<notin> set cs)"
      proof
        assume "startsWith (c # cs) ''${'' \<and> CHR ''}'' \<notin> set cs"
        then obtain t where t: "c # cs = ''${'' @ t" "CHR ''}'' \<notin> set t"
          by (cases cs) (auto simp: startsWith_def)
        then have "unclosed pre" using unclosed_dangling [of t] Cons by simp
        with 1(2) show False by simp
      qed
      have m: "matchPlaceholder (c # (cs @ X)) = None"
        using match_append_None [OF None not_dangling, of "''{'' @ name @ ''}'' @ post"]
        unfolding X_def by simp
      have len: "length cs < length pre" using Cons by simp
      have "pre = [c] @ cs" using Cons by simp
      then have cl: "\<not> unclosed cs" by (rule closed)
      have "replacePlaceholders f (c # (cs @ X)) = c # replacePlaceholders f (cs @ X)"
        using m by simp
      moreover have "replacePlaceholders f (c # cs) = c # replacePlaceholders f cs"
        using None by simp
      ultimately show ?thesis using IH [OF len cl] Cons by simp
    qed
  qed
  then show ?case unfolding X_def by simp
qed

text \<open>
  C6, as the code has it. For every script body, every occurrence of \<^verbatim>\<open>${defaultSandbox}\<close> or
  \<^verbatim>\<open>${options.defaultSandbox}\<close> that is not preceded by an unclosed \<^verbatim>\<open>${\<close> is replaced: by
  \<open>options.defaultSandbox\<close> when that option is set to a non-empty string, by the literal
  \<^verbatim>\<open>ai_sandbox\<close> otherwise. What precedes and what follows the occurrence is processed on
  its own.
\<close>

theorem known_placeholder_replaced:
  assumes "key = ''defaultSandbox'' \<or> key = ''options.defaultSandbox''"
    and "\<not> unclosed pre"
  shows "processScriptContent opts (pre @ ''${'' @ key @ ''}'' @ post) =
           processScriptContent opts pre
           @ (case defaultSandbox opts of
                Some sandbox \<Rightarrow> if sandbox \<noteq> [] then sandbox else ''ai_sandbox''
              | None \<Rightarrow> ''ai_sandbox'')
           @ processScriptContent opts post"
proof -
  have k: "key \<noteq> []" "CHR ''}'' \<notin> set key" using assms(1) by auto
  have "placeholderValue opts (''${'' @ key @ ''}'') key = sandboxOrDefault opts"
    using assms(1) by (auto simp: placeholderValue_def)
  then show ?thesis
    using replace_closed [OF k assms(2), of "placeholderValue opts" post]
    by (simp add: processScriptContent_def sandboxOrDefault_def)
qed

theorem known_placeholder_replaced_witness:
  "\<not> unclosed ''sandbox = ''
   \<and> processScriptContent (options_of None None) ''sandbox = ${defaultSandbox} # ${x}''
       = ''sandbox = ai_sandbox # ${x}''
   \<and> processScriptContent ((options_of None None)\<lparr>defaultSandbox := Some ''lab''\<rparr>)
         ''sandbox = ${options.defaultSandbox} # ${x}''
       = ''sandbox = lab # ${x}''"
proof -
  have u: "\<not> unclosed ''sandbox = ''" by (simp add: unclosed_def startsWith_def)
  have p: "processScriptContent opts ''sandbox = '' = ''sandbox = ''"
    "processScriptContent opts '' # ${x}'' = '' # ${x}''" for opts
    by (simp_all add: processScriptContent_def matchPlaceholder_def placeholderValue_def)
  have 1: "processScriptContent (options_of None None) (''sandbox = '' @ ''${'' @ ''defaultSandbox'' @ ''}'' @ '' # ${x}'')
      = ''sandbox = '' @ ''ai_sandbox'' @ '' # ${x}''"
    using known_placeholder_replaced [of "''defaultSandbox''" "''sandbox = ''" "options_of None None" "'' # ${x}''"] u
    unfolding p by (simp add: options_of_def)
  have 2: "processScriptContent ((options_of None None)\<lparr>defaultSandbox := Some ''lab''\<rparr>)
        (''sandbox = '' @ ''${'' @ ''options.defaultSandbox'' @ ''}'' @ '' # ${x}'')
      = ''sandbox = '' @ ''lab'' @ '' # ${x}''"
    using known_placeholder_replaced [of "''options.defaultSandbox''" "''sandbox = ''"
        "(options_of None None)\<lparr>defaultSandbox := Some ''lab''\<rparr>" "'' # ${x}''"] u
    unfolding p by simp
  show ?thesis using u 1 2 by simp
qed

text \<open>
  C6 as stated fails: in the script body \<^verbatim>\<open>${x${defaultSandbox}\<close> the expression matches from
  the first \<^verbatim>\<open>${\<close> to the closing brace, with the captured name \<^verbatim>\<open>x${defaultSandbox\<close>, which is not
  a known key; the match is kept, and the occurrence of \<^verbatim>\<open>${defaultSandbox}\<close> in it is not
  replaced.
\<close>

theorem nested_placeholder_counterexample:
  "processScriptContent (options_of None None) ''${x${defaultSandbox}'' = ''${x${defaultSandbox}''
   \<and> includes_str (processScriptContent (options_of None None) ''${x${defaultSandbox}'')
        ''${defaultSandbox}''"
  by (simp add: processScriptContent_def matchPlaceholder_def placeholderValue_def startsWith_def)

text \<open>
  C7. For every script body and every placeholder token \<^verbatim>\<open>${name}\<close> in it (a non-empty name
  without \<^verbatim>\<open>}\<close>) whose name is neither \<^verbatim>\<open>defaultSandbox\<close> nor \<^verbatim>\<open>options.defaultSandbox\<close>,
  \<open>processScriptContent\<close> leaves the token unchanged in the output, between the processed
  text before it and the processed text after it. The function is total: it does not
  fail.
\<close>

theorem unknown_placeholder_kept:
  assumes "name \<noteq> []" and "CHR ''}'' \<notin> set name"
    and "name \<noteq> ''defaultSandbox''" and "name \<noteq> ''options.defaultSandbox''"
  shows "processScriptContent opts (pre @ ''${'' @ name @ ''}'' @ post) =
           processScriptContent opts pre @ ''${'' @ name @ ''}'' @ processScriptContent opts post"
proof -
  have keep: "placeholderValue opts (''${'' @ v @ ''}'') v = ''${'' @ v @ ''}''"
    if "CHR ''$'' \<in> set v" for v
    using that by (auto simp: placeholderValue_def)
  have tok: "placeholderValue opts (''${'' @ name @ ''}'') name = ''${'' @ name @ ''}''"
    using assms(3,4) by (simp add: placeholderValue_def)
  show ?thesis
    unfolding processScriptContent_def
    using replace_unknown [OF assms(1,2), of "placeholderValue opts" pre post] keep tok by blast
qed

theorem unknown_placeholder_kept_witness:
  "processScriptContent (options_of None None) ''home = ${HOME}; box = ${defaultSandbox}''
     = ''home = ${HOME}; box = ai_sandbox''
   \<and> processScriptContent (options_of None None) ''${a${HOME}'' = ''${a${HOME}''"
proof -
  have p: "processScriptContent (options_of None None) ''home = '' = ''home = ''"
    "processScriptContent (options_of None None) ''; box = ${defaultSandbox}'' = ''; box = ai_sandbox''"
    "processScriptContent (options_of None None) ''${a'' = ''${a''"
    "processScriptContent (options_of None None) [] = []"
    by (simp_all add: processScriptContent_def matchPlaceholder_def placeholderValue_def
        sandboxOrDefault_def options_of_def)
  have n: "''HOME'' \<noteq> []" "CHR ''}'' \<notin> set ''HOME''" "''HOME'' \<noteq> ''defaultSandbox''"
    "''HOME'' \<noteq> ''options.defaultSandbox''" by simp_all
  have 1: "processScriptContent (options_of None None)
        (''home = '' @ ''${'' @ ''HOME'' @ ''}'' @ ''; box = ${defaultSandbox}'')
      = ''home = '' @ ''${'' @ ''HOME'' @ ''}'' @ ''; box = ai_sandbox''"
    using unknown_placeholder_kept [OF n, of "options_of None None" "''home = ''" "''; box = ${defaultSandbox}''"]
    unfolding p .
  have 2: "processScriptContent (options_of None None) (''${a'' @ ''${'' @ ''HOME'' @ ''}'' @ [])
      = ''${a'' @ ''${'' @ ''HOME'' @ ''}'' @ []"
    using unknown_placeholder_kept [OF n, of "options_of None None" "''${a''" "[]"]
    unfolding p .
  show ?thesis using 1 2 by simp
qed

subsection \<open>The transfer encodings\<close>

text \<open>
  Base64: every character the encoder writes is a character of the alphabet or the
  padding, and the decoder of the runtime gives the encoded bytes back.
\<close>

lemma b64char_code:
  "i < 64 \<Longrightarrow> (of_char (b64char i) :: nat) =
     (if i < 26 then 65 + i else if i < 52 then 71 + i else if i < 62 then i - 4
      else if i = 62 then 43 else 47)"
  by (simp add: b64char_def)

lemma b64index_b64char: "i < 64 \<Longrightarrow> b64index (b64char i) = Some i"
  by (auto simp: b64index_def b64char_def Let_def)

lemma b64char_not_pad: "i < 64 \<Longrightarrow> b64char i \<noteq> CHR ''=''"
proof
  assume "i < 64" and "b64char i = CHR ''=''"
  then have "(of_char (b64char i) :: nat) = 61" by simp
  with \<open>i < 64\<close> show False by (simp add: b64char_code split: if_splits)
qed

lemma a2b_step:
  assumes "i < 64"
  shows "a2b_base64 quad_pos leftchar pads bin (b64char i # ascii) =
     (if quad_pos = 0 then a2b_base64 1 i 0 bin ascii
      else if quad_pos = 1 then
        a2b_base64 2 (i mod 16) 0 (char_of (leftchar * 4 + i div 16) # bin) ascii
      else if quad_pos = 2 then
        a2b_base64 3 (i mod 4) 0 (char_of (leftchar * 16 + i div 4) # bin) ascii
      else a2b_base64 0 0 0 (char_of (leftchar * 64 + i) # bin) ascii)"
  using assms by (simp add: b64index_b64char b64char_not_pad)

lemma a2b_pad:
  "a2b_base64 quad_pos leftchar pads bin (CHR ''='' # ascii) =
     (if quad_pos \<ge> 2 \<and> quad_pos + (pads + 1) \<ge> 4 then Some (rev bin)
      else a2b_base64 quad_pos leftchar (if quad_pos \<ge> 2 then pads + 1 else pads) bin ascii)"
  by simp

lemma a2b_quad:
  assumes "i1 < 64" "i2 < 64" "i3 < 64" "i4 < 64"
  shows "a2b_base64 0 0 0 bin (b64char i1 # b64char i2 # b64char i3 # b64char i4 # ascii) =
     a2b_base64 0 0 0
       (char_of ((i3 mod 4) * 64 + i4) # char_of ((i2 mod 16) * 16 + i3 div 4)
        # char_of (i1 * 4 + i2 div 16) # bin) ascii"
  by (simp add: a2b_step [OF assms(1)] a2b_step [OF assms(2)] a2b_step [OF assms(3)]
      a2b_step [OF assms(4)] del: a2b_base64.simps(2))

lemma a2b_last2:
  assumes "i1 < 64" "i2 < 64" "i3 < 64"
  shows "a2b_base64 0 0 0 bin [b64char i1, b64char i2, b64char i3, CHR ''=''] =
     Some (rev bin @ [char_of (i1 * 4 + i2 div 16), char_of ((i2 mod 16) * 16 + i3 div 4)])"
  by (simp add: a2b_step [OF assms(1)] a2b_step [OF assms(2)] a2b_step [OF assms(3)] a2b_pad
      del: a2b_base64.simps(2))

lemma a2b_last1:
  assumes "i1 < 64" "i2 < 64"
  shows "a2b_base64 0 0 0 bin [b64char i1, b64char i2, CHR ''='', CHR ''=''] =
     Some (rev bin @ [char_of (i1 * 4 + i2 div 16)])"
  by (simp add: a2b_step [OF assms(1)] a2b_step [OF assms(2)] a2b_pad del: a2b_base64.simps(2))

lemma byte_bound: "(of_char (c :: char) :: nat) < 256"
  by (metis of_char_mod_256 mod_less_divisor zero_less_numeral)

lemma sextets:
  fixes x y z :: nat
  assumes "x < 256" "y < 256" "z < 256"
  shows "x div 4 < 64" "(x mod 4) * 16 + y div 16 < 64" "(y mod 16) * 4 + z div 64 < 64" "z mod 64 < 64"
    "(x mod 4) * 16 < 64" "(y mod 16) * 4 < 64"
  using assms by auto

lemma octets:
  fixes x y z :: nat
  assumes "x < 256" "y < 256" "z < 256"
  shows "(x div 4) * 4 + ((x mod 4) * 16 + y div 16) div 16 = x"
    and "(((x mod 4) * 16 + y div 16) mod 16) * 16 + ((y mod 16) * 4 + z div 64) div 4 = y"
    and "(((y mod 16) * 4 + z div 64) mod 4) * 64 + z mod 64 = z"
    and "(x div 4) * 4 + ((x mod 4) * 16) div 16 = x"
    and "(((x mod 4) * 16 + y div 16) mod 16) * 16 + ((y mod 16) * 4) div 4 = y"
  using assms by auto

lemma a2b_base64_encode:
  "a2b_base64 0 0 0 bin (base64_encode s) = Some (rev bin @ s)"
proof (induction s arbitrary: bin rule: base64_encode.induct)
  case 1
  then show ?case by simp
next
  case (2 a)
  define x where "x = (of_char a :: nat)"
  have x: "x < 256" unfolding x_def by (rule byte_bound)
  have a: "char_of x = a" unfolding x_def by simp
  have "a2b_base64 0 0 0 bin (base64_encode [a])
      = Some (rev bin @ [char_of ((x div 4) * 4 + ((x mod 4) * 16) div 16)])"
    unfolding base64_encode.simps Let_def x_def [symmetric]
    by (rule a2b_last1 [OF sextets(1,5) [OF x x x]])
  then show ?case unfolding octets(4) [OF x x x] a .
next
  case (3 a b)
  define x where "x = (of_char a :: nat)"
  define y where "y = (of_char b :: nat)"
  have x: "x < 256" and y: "y < 256" unfolding x_def y_def by (rule byte_bound)+
  have a: "char_of x = a" "char_of y = b" unfolding x_def y_def by simp_all
  have "a2b_base64 0 0 0 bin (base64_encode [a, b])
      = Some (rev bin @ [char_of ((x div 4) * 4 + ((x mod 4) * 16 + y div 16) div 16),
           char_of ((((x mod 4) * 16 + y div 16) mod 16) * 16 + ((y mod 16) * 4) div 4)])"
    unfolding base64_encode.simps Let_def x_def [symmetric] y_def [symmetric]
    by (rule a2b_last2 [OF sextets(1,2,6) [OF x y y]])
  then show ?case unfolding octets(1,5) [OF x y y] a .
next
  case (4 a b c rest)
  define x where "x = (of_char a :: nat)"
  define y where "y = (of_char b :: nat)"
  define z where "z = (of_char c :: nat)"
  have x: "x < 256" and y: "y < 256" and z: "z < 256" unfolding x_def y_def z_def by (rule byte_bound)+
  have a: "char_of x = a" "char_of y = b" "char_of z = c" unfolding x_def y_def z_def by simp_all
  have "a2b_base64 0 0 0 bin (base64_encode (a # b # c # rest))
      = a2b_base64 0 0 0
          (char_of ((((y mod 16) * 4 + z div 64) mod 4) * 64 + z mod 64)
           # char_of ((((x mod 4) * 16 + y div 16) mod 16) * 16 + ((y mod 16) * 4 + z div 64) div 4)
           # char_of ((x div 4) * 4 + ((x mod 4) * 16 + y div 16) div 16) # bin)
          (base64_encode rest)"
    unfolding base64_encode.simps Let_def x_def [symmetric] y_def [symmetric] z_def [symmetric] append.simps
    by (rule a2b_quad [OF sextets(1,2,3,4) [OF x y z]])
  also have "\<dots> = a2b_base64 0 0 0 (c # b # a # bin) (base64_encode rest)"
    unfolding octets(1,2,3) [OF x y z] a ..
  also have "\<dots> = Some (rev (c # b # a # bin) @ rest)" by (rule "4.IH")
  finally show ?case by simp
qed

lemma b64char_text: "i < 64 \<Longrightarrow> b64text (b64char i)"
  unfolding b64text_def by (auto simp: b64char_code)

lemma pad_text: "b64text CHR ''=''"
  by (simp add: b64text_def)

lemma base64_encode_text: "list_all b64text (base64_encode s)"
proof (induction s rule: base64_encode.induct)
  case 1
  then show ?case by simp
next
  case (2 a)
  show ?case
    using b64char_text [OF sextets(1) [OF byte_bound byte_bound byte_bound]]
      b64char_text [OF sextets(5) [OF byte_bound byte_bound byte_bound]] pad_text
    by (simp add: Let_def)
next
  case (3 a b)
  show ?case
    using b64char_text [OF sextets(1) [OF byte_bound byte_bound byte_bound]]
      b64char_text [OF sextets(2) [OF byte_bound byte_bound byte_bound]]
      b64char_text [OF sextets(6) [OF byte_bound byte_bound byte_bound]] pad_text
    by (simp add: Let_def)
next
  case (4 a b c rest)
  show ?case
    using b64char_text [OF sextets(1) [OF byte_bound byte_bound byte_bound]]
      b64char_text [OF sextets(2) [OF byte_bound byte_bound byte_bound]]
      b64char_text [OF sextets(3) [OF byte_bound byte_bound byte_bound]]
      b64char_text [OF sextets(4) [OF byte_bound byte_bound byte_bound]] "4.IH"
    by (simp add: Let_def)
qed

lemma b64decode_encode: "b64decode (base64_encode s) = Some s"
proof -
  have "\<not> list_ex (\<lambda>c. (of_char c :: nat) \<ge> 128) (base64_encode s)"
    using base64_encode_text [of s] by (auto simp: list_ex_iff list_all_iff b64text_def)
  then show ?thesis using a2b_base64_encode [of "[]" s] by (simp add: b64decode_def)
qed







lemma py_body_plain:
  assumes "\<forall>c \<in> set s. c \<noteq> q \<and> c \<noteq> CHR 0x5C \<and> c \<noteq> CHR 0x0A \<and> c \<noteq> CHR 0x0D \<and> c \<noteq> CHR 0x00"
  shows "py_string_body q acc (s @ q # rest) = Some (rev acc @ s, rest)"
  using assms by (induction s arbitrary: acc) simp_all

lemma py_literal_plain:
  assumes "\<forall>c \<in> set s. c \<noteq> CHR 0x27 \<and> c \<noteq> CHR 0x5C \<and> c \<noteq> CHR 0x0A \<and> c \<noteq> CHR 0x0D \<and> c \<noteq> CHR 0x00"
    and "take 1 rest \<noteq> [CHR 0x27]"
  shows "py_string_literal (CHR 0x27 # s @ CHR 0x27 # rest) = Some (s, rest)"
proof -
  have "take 2 (s @ CHR 0x27 # rest) \<noteq> [CHR 0x27, CHR 0x27]"
  proof (cases s)
    case Nil
    then show ?thesis using assms(2) by (cases rest) auto
  next
    case (Cons c s')
    then show ?thesis using assms(1) by auto
  qed
  then show ?thesis
    using py_body_plain [OF assms(1), of "[]" rest] by (simp add: py_string_literal_def)
qed

text \<open>The two expressions interpolated into the write scripts give the content back.\<close>

lemma b64text_plain:
  "b64text c \<Longrightarrow> c \<noteq> CHR 0x27 \<and> c \<noteq> CHR 0x5C \<and> c \<noteq> CHR 0x0A \<and> c \<noteq> CHR 0x0D \<and> c \<noteq> CHR 0x00"
  by (auto simp: b64text_def)

lemma py_b64_expression_encode: "py_b64_expression (base64_encode content) = Some content"
proof -
  have plain: "\<forall>c \<in> set (base64_encode content).
      c \<noteq> CHR 0x27 \<and> c \<noteq> CHR 0x5C \<and> c \<noteq> CHR 0x0A \<and> c \<noteq> CHR 0x0D \<and> c \<noteq> CHR 0x00"
    using base64_encode_text [of content] b64text_plain by (auto simp: list_all_iff)
  have r: "take 1 b64_line_rest \<noteq> [CHR 0x27]" by (simp add: b64_line_rest_def)
  have "py_string_literal (CHR 0x27 # base64_encode content @ CHR 0x27 # b64_line_rest)
      = Some (base64_encode content, b64_line_rest)"
    by (rule py_literal_plain [OF plain r])
  then show ?thesis by (simp add: py_b64_expression_def py_literal_value_def b64decode_encode)
qed


subsection \<open>The runtime\<close>

lemma mkdirs_keeps:
  "pythonReads (snd (mkdirs py cur ss)) = pythonReads py
   \<and> refuses (snd (mkdirs py cur ss)) = refuses py
   \<and> files (snd (mkdirs py cur ss)) = files py"
  by (induction py cur ss rule: mkdirs.induct) (auto simp: Let_def)

lemma os_makedirs_keeps:
  "pythonReads (snd (os_makedirs py p)) = pythonReads py
   \<and> refuses (snd (os_makedirs py p)) = refuses py
   \<and> files (snd (os_makedirs py p)) = files py"
  by (simp add: os_makedirs_def mkdirs_keeps)

lemma os_makedirs_result:
  "os_makedirs py p = (r, py') \<Longrightarrow>
   pythonReads py' = pythonReads py \<and> refuses py' = refuses py \<and> files py' = files py"
  using os_makedirs_keeps [of py p] by simp

lemma createPyodideDirectory_keeps:
  "pythonReads (snd (createPyodideDirectory py p)) = pythonReads py
   \<and> refuses (snd (createPyodideDirectory py p)) = refuses py
   \<and> files (snd (createPyodideDirectory py p)) = files py"
  by (simp add: createPyodideDirectory_def os_makedirs_keeps split: option.splits)

lemma createPyodideDirectory_result:
  "createPyodideDirectory py p = (r, py') \<Longrightarrow>
   pythonReads py' = pythonReads py \<and> refuses py' = refuses py \<and> files py' = files py"
  using createPyodideDirectory_keeps [of py p] by simp

lemma py_write_done:
  assumes "py_write py targetPath val = (None, py')"
  shows "\<exists>text p. val = Some text \<and> py_path (pythonReads py) targetPath = Some p
           \<and> files py' = (resolve p, text) # files py
           \<and> pythonReads py' = pythonReads py \<and> refuses py' = refuses py"
proof -
  from assms obtain p body py1 where p: "py_path (pythonReads py) targetPath = Some p"
    and v: "val = Some body"
    and m: "os_makedirs py (py_dirname p) = (None, py1)"
    and w: "open_write py1 p body = (None, py')"
    by (auto simp: py_write_def split: option.splits prod.splits)
  have k: "pythonReads py1 = pythonReads py" "refuses py1 = refuses py" "files py1 = files py"
    using os_makedirs_keeps [of py "py_dirname p"] m by simp_all
  have "files py' = (resolve p, body) # files py1" "pythonReads py' = pythonReads py1"
    "refuses py' = refuses py1"
    using w by (auto simp: open_write_def split: if_splits)
  then show ?thesis using p v k by simp
qed

lemma py_write_thrown:
  assumes "py_write py targetPath val = (Some e, py')"
  shows "files py' = files py \<and> pythonReads py' = pythonReads py \<and> refuses py' = refuses py"
  using assms
  by (auto simp: py_write_def open_write_def split: option.splits prod.splits if_splits
      dest!: os_makedirs_result)

lemma copyFileToPyodide_File:
  "copyFileToPyodide py (File content) targetPath = py_write py targetPath (Some content)"
  by (simp add: copyFileToPyodide_def py_b64_expression_encode)

lemma copyFileToPyodide_done:
  assumes "copyFileToPyodide py entry targetPath = (None, py')"
  shows "\<exists>content p. entry = File content \<and> py_path (pythonReads py) targetPath = Some p
           \<and> files py' = (resolve p, content) # files py
           \<and> pythonReads py' = pythonReads py \<and> refuses py' = refuses py"
proof (cases entry)
  case (File content)
  then show ?thesis
    using assms py_write_done [of py targetPath "Some content" py']
    by (auto simp: copyFileToPyodide_File)
qed (use assms in \<open>simp_all add: copyFileToPyodide_def\<close>)

lemma copyFileToPyodide_thrown:
  assumes "copyFileToPyodide py entry targetPath = (Some e, py')"
  shows "files py' = files py \<and> pythonReads py' = pythonReads py \<and> refuses py' = refuses py"
proof (cases entry)
  case (File content)
  then show ?thesis
    using assms py_write_thrown [of py targetPath "Some content" e py']
    by (auto simp: copyFileToPyodide_File)
qed (use assms in \<open>auto simp: copyFileToPyodide_def\<close>)

subsection \<open>FsBridge: the walk\<close>

lemma walk_keeps:
  "processDirectory py current cur vp = (r, w, py') \<Longrightarrow>
     pythonReads py' = pythonReads py \<and> refuses py' = refuses py"
  and "processFiles py entries cur vp c = (t, n, w, py') \<Longrightarrow>
     pythonReads py' = pythonReads py \<and> refuses py' = refuses py"
proof (induction current and entries arbitrary: py cur vp r w py' and py cur vp c t n w py'
    rule: allFiles_allFilesIn.induct)
  case (1 content)
  then show ?case
    by (auto split: prod.splits option.splits dest!: createPyodideDirectory_result)
next
  case (2 entries)
  then show ?case
    by (auto split: prod.splits option.splits dest!: createPyodideDirectory_result)
next
  case 3
  then show ?case
    by (auto split: prod.splits option.splits dest!: createPyodideDirectory_result)
next
  case 4
  then show ?case
    by (auto split: prod.splits option.splits dest!: createPyodideDirectory_result)
next
  case 5
  then show ?case
    by (auto split: prod.splits option.splits dest!: createPyodideDirectory_result)
next
  case 6
  then show ?case by simp
next
  case (7 name entry rest)
  show ?case
    using "7.prems" "7.IH"
    by (auto simp: Let_def split: if_splits option.splits bool.splits prod.splits sum.splits
        dest!: copyFileToPyodide_done copyFileToPyodide_thrown
        simp del: processDirectory.simps)
qed

lemma allFiles_names:
  "(names, content) \<in> set (allFilesIn entries) \<Longrightarrow> names \<noteq> []"
  by (induction entries) auto

lemma isStaged_Cons:
  "isStaged (name # names, content) =
     (\<not> startsWith name ''.''
      \<and> (if names = [] then endsWith name ''.py'' else isStaged (names, content)))"
  by (auto simp: isStaged_def)

lemma staged_under_hidden:
  "startsWith name ''.'' \<Longrightarrow>
   filter isStaged (map (\<lambda>(names, content). (name # names, content)) fs) = []"
  by (induction fs) (auto simp: isStaged_Cons)

lemma filter_map_commute:
  "(\<And>f. f \<in> set fs \<Longrightarrow> P (g f) = P f) \<Longrightarrow> filter P (map g fs) = map g (filter P fs)"
  by (induction fs) auto

lemma staged_under_dir:
  assumes "\<not> startsWith name ''.''"
  shows "filter isStaged (map (\<lambda>(names, content). (name # names, content)) (allFilesIn entries))
       = map (\<lambda>(names, content). (name # names, content)) (filter isStaged (allFilesIn entries))"
proof (rule filter_map_commute)
  fix f
  assume f: "f \<in> set (allFilesIn entries)"
  obtain names content where nc: "f = (names, content)" by (cases f)
  have "names \<noteq> []" using f nc allFiles_names by blast
  then show "isStaged (case f of (names, content) \<Rightarrow> (name # names, content)) = isStaged f"
    using assms nc by (simp add: isStaged_Cons)
qed

lemma virtualPath_Cons:
  "virtualPath target (name # names) =
     virtualPath (replace_backslashes (path_join [target, name])) names"
  by (simp add: virtualPath_def)

lemma planned_under:
  "planned reads target (map (\<lambda>(names, content). (name # names, content)) fs)
     = planned reads (replace_backslashes (path_join [target, name])) fs"
  by (induction fs) (auto simp: planned_def virtualPath_Cons)

lemma planned_append:
  "planned reads target (fs @ gs) = planned reads target fs @ planned reads target gs"
  by (simp add: planned_def)

lemma planned_single:
  "planned reads target [([name], content)]
     = [(landing reads (replace_backslashes (path_join [target, name])), content)]"
  by (simp add: planned_def virtualPath_def)

lemma stagedFiles_simps:
  "stagedFiles (File content) = []"
  "stagedFiles (Dir entries) = filter isStaged (allFilesIn entries)"
  "stagedFiles UnreadableFile = []"
  "stagedFiles UnreadableDir = []"
  "stagedFiles Missing = []"
  by (simp_all add: stagedFiles_def isStaged_def)

lemma staged_Cons_hidden:
  "startsWith name ''.'' \<Longrightarrow>
   filter isStaged (allFilesIn ((name, entry) # rest)) = filter isStaged (allFilesIn rest)"
  by (simp add: staged_under_hidden)

lemma staged_Cons_file:
  "\<not> startsWith name ''.'' \<Longrightarrow>
   filter isStaged (allFilesIn ((name, File content) # rest))
     = (if endsWith name ''.py'' then [([name], content)] else []) @ filter isStaged (allFilesIn rest)"
  by (simp add: isStaged_Cons)

lemma staged_Cons_dir:
  "\<not> startsWith name ''.'' \<Longrightarrow>
   filter isStaged (allFilesIn ((name, Dir sub) # rest))
     = map (\<lambda>(names, content). (name # names, content)) (stagedFiles (Dir sub))
       @ filter isStaged (allFilesIn rest)"
  by (simp add: staged_under_dir stagedFiles_simps)

lemma staged_Cons_other:
  "entry = UnreadableFile \<or> entry = UnreadableDir \<or> entry = Missing \<Longrightarrow>
   filter isStaged (allFilesIn ((name, entry) # rest)) = filter isStaged (allFilesIn rest)"
  by auto

lemma placed_Cons:
  "files py' = (k, content) # files py \<Longrightarrow> placed (files py') = (Some k, content) # placed (files py)"
  by (simp add: placed_def)

lemma processFiles_hidden:
  "startsWith name ''.'' \<Longrightarrow>
   processFiles py ((name, entry) # rest) cur vp c = processFiles py rest cur vp c"
  by simp

lemma processFiles_nostat:
  "\<not> startsWith name ''.'' \<Longrightarrow> statIsDirectory entry = None \<Longrightarrow>
   processFiles py ((name, entry) # rest) cur vp c = (Some (Error ''statSync''), c, [], py)"
  by simp

lemma processFiles_dir:
  "\<not> startsWith name ''.'' \<Longrightarrow> statIsDirectory entry = Some True \<Longrightarrow>
   processFiles py ((name, entry) # rest) cur vp c =
     (case processDirectory py entry (path_join [cur, name])
             (replace_backslashes (path_join [vp, name])) of
        (Inl e, warnings, py1) \<Rightarrow> (Some e, c, warnings, py1)
      | (Inr n, warnings, py1) \<Rightarrow>
          (case processFiles py1 rest cur vp (c + n) of
             (thrown, count, later, py2) \<Rightarrow> (thrown, count, warnings @ later, py2)))"
  by (simp del: processDirectory.simps)

lemma processFiles_file:
  "\<not> startsWith name ''.'' \<Longrightarrow> statIsDirectory entry = Some False \<Longrightarrow>
   processFiles py ((name, entry) # rest) cur vp c =
     (if endsWith name ''.py'' then
        (case copyFileToPyodide py entry (replace_backslashes (path_join [vp, name])) of
           (Some e, py1) \<Rightarrow> (Some e, c, [], py1)
         | (None, py1) \<Rightarrow> processFiles py1 rest cur vp (c + 1))
      else processFiles py rest cur vp c)"
  by simp

text \<open>A walk that catches no error has written every staged file.\<close>

lemma walk_clean:
  "processDirectory py current cur vp = (Inr n, [], py') \<Longrightarrow>
     n = length (stagedFiles current)
     \<and> placed (files py') = rev (planned (pythonReads py) vp (stagedFiles current)) @ placed (files py)"
  and "processFiles py entries cur vp c = (None, n, [], py') \<Longrightarrow>
     n = c + length (filter isStaged (allFilesIn entries))
     \<and> placed (files py')
         = rev (planned (pythonReads py) vp (filter isStaged (allFilesIn entries))) @ placed (files py)"
proof (induction current and entries arbitrary: py cur vp n py' and py cur vp c n py'
    rule: allFiles_allFilesIn.induct)
  case (1 content)
  then show ?case by (auto split: prod.splits option.splits)
next
  case (2 entries)
  from "2.prems" obtain py1 where
    mk: "createPyodideDirectory py vp = (None, py1)"
    and w: "processFiles py1 entries cur vp 0 = (None, n, [], py')"
    by (auto split: prod.splits option.splits)
  have k: "pythonReads py1 = pythonReads py" "files py1 = files py"
    using createPyodideDirectory_result [OF mk] by simp_all
  show ?case
    using "2.IH" [OF w] k by (simp add: stagedFiles_simps placed_def)
next
  case 3
  then show ?case by (auto split: prod.splits option.splits)
next
  case 4
  then show ?case by (auto split: prod.splits option.splits)
next
  case 5
  then show ?case by (auto split: prod.splits option.splits)
next
  case 6
  then show ?case by (simp add: planned_def)
next
  case (7 name entry rest)
  let ?x = "path_join [cur, name]"
  let ?xa = "replace_backslashes (path_join [vp, name])"
  note prem = "7.prems"
  show ?case
  proof (cases "startsWith name ''.''")
    case True
    then have "processFiles py rest cur vp c = (None, n, [], py')"
      using prem by simp
    from "7.IH"(2) [OF this] show ?thesis
      using True by (simp add: staged_Cons_hidden del: allFilesIn.simps)
  next
    case False
    show ?thesis
    proof (cases entry)
      case (File content)
      have st: "statIsDirectory entry = Some False" using File by simp
      show ?thesis
      proof (cases "endsWith name ''.py''")
        case True
        from prem obtain py1 where
          cp: "copyFileToPyodide py entry ?xa = (None, py1)"
          and w: "processFiles py1 rest cur vp (c + 1) = (None, n, [], py')"
          unfolding processFiles_file [OF False st]
          using True by (auto split: prod.splits option.splits)
        from copyFileToPyodide_done [OF cp] File obtain p where
          p: "py_path (pythonReads py) ?xa = Some p"
          and f: "files py1 = (resolve p, content) # files py"
          and k: "pythonReads py1 = pythonReads py"
          by auto
        have s: "filter isStaged (allFilesIn ((name, entry) # rest))
            = ([name], content) # filter isStaged (allFilesIn rest)"
          using staged_Cons_file [OF False, of content rest] File True by simp
        have "placed (files py1) = (landing (pythonReads py) ?xa, content) # placed (files py)"
          using placed_Cons [OF f] p by (simp add: landing_def)
        then show ?thesis
          using "7.IH"(2) [OF w] k unfolding s
          by (simp add: planned_def virtualPath_def)
      next
        case nopy: False
        have w: "processFiles py rest cur vp c = (None, n, [], py')"
          using prem unfolding processFiles_file [OF False st] using nopy by simp
        have s: "filter isStaged (allFilesIn ((name, entry) # rest))
            = filter isStaged (allFilesIn rest)"
          using staged_Cons_file [OF False, of content rest] File nopy by simp
        show ?thesis using "7.IH"(2) [OF w] unfolding s .
      qed
    next
      case (Dir sub)
      have st: "statIsDirectory entry = Some True" using Dir by simp
      from prem obtain m py1 where
        d: "processDirectory py entry ?x ?xa = (Inr m, [], py1)"
        and w: "processFiles py1 rest cur vp (c + m) = (None, n, [], py')"
        unfolding processFiles_dir [OF False st]
        by (auto split: prod.splits sum.splits)
      have k: "pythonReads py1 = pythonReads py" using walk_keeps(1) [OF d] by simp
      have s: "filter isStaged (allFilesIn ((name, entry) # rest))
          = map (\<lambda>(names, content). (name # names, content)) (stagedFiles entry)
            @ filter isStaged (allFilesIn rest)"
        using staged_Cons_dir [OF False, of sub rest] Dir by simp
      show ?thesis
        using "7.IH"(1) [OF d] "7.IH"(2) [OF w] k unfolding s
        by (simp add: planned_append planned_under)
    next
      case UnreadableFile
      have st: "statIsDirectory entry = Some False" using UnreadableFile by simp
      have nopy: "\<not> endsWith name ''.py''"
        using prem unfolding processFiles_file [OF False st]
        by (auto simp: UnreadableFile copyFileToPyodide_def split: if_splits)
      have w: "processFiles py rest cur vp c = (None, n, [], py')"
        using prem unfolding processFiles_file [OF False st] using nopy by simp
      have s: "filter isStaged (allFilesIn ((name, entry) # rest))
          = filter isStaged (allFilesIn rest)"
        using staged_Cons_other [of entry name rest] UnreadableFile by simp
      show ?thesis using "7.IH"(2) [OF w] unfolding s .
    next
      case UnreadableDir
      have st: "statIsDirectory entry = Some True" using UnreadableDir by simp
      have False
        using prem unfolding processFiles_dir [OF False st]
        by (auto simp: UnreadableDir split: prod.splits sum.splits option.splits)
      then show ?thesis ..
    next
      case Missing
      then show ?thesis using prem False by simp
    qed
  qed
qed

text \<open>Hidden entries play no part in a walk.\<close>

lemma statIsDirectory_withoutHidden [simp]:
  "statIsDirectory (withoutHidden entry) = statIsDirectory entry"
  by (cases entry) simp_all

lemma walk_without_hidden:
  "processDirectory py current cur vp = processDirectory py (withoutHidden current) cur vp"
  and "processFiles py entries cur vp c = processFiles py (withoutHiddenIn entries) cur vp c"
proof (induction current and entries arbitrary: py cur vp and py cur vp c
    rule: allFiles_allFilesIn.induct)
  case (2 entries)
  then show ?case by (simp split: prod.splits option.splits)
next
  case (7 name entry rest)
  show ?case
  proof (cases "startsWith name ''.''")
    case True
    then show ?thesis using "7.IH"(2) by simp
  next
    case False
    show ?thesis
    proof (cases "statIsDirectory entry")
      case None
      then show ?thesis using False by simp
    next
      case (Some d)
      show ?thesis
      proof (cases d)
        case True
        then have st: "statIsDirectory entry = Some True"
          "statIsDirectory (withoutHidden entry) = Some True" using Some by simp_all
        have "processFiles py (withoutHiddenIn ((name, entry) # rest)) cur vp c
            = processFiles py ((name, withoutHidden entry) # withoutHiddenIn rest) cur vp c"
          using False by simp
        then show ?thesis
          unfolding processFiles_dir [OF False st(1)] processFiles_dir [OF False st(2)]
          using "7.IH"(1) [of py "path_join [cur, name]" "replace_backslashes (path_join [vp, name])"]
            "7.IH"(2)
          by (simp split: prod.splits sum.splits del: processDirectory.simps processFiles.simps)
      next
        case nd: False
        then have st: "statIsDirectory entry = Some False"
          "statIsDirectory (withoutHidden entry) = Some False" using Some by simp_all
        have e: "withoutHidden entry = entry" using st(1) by (cases entry) simp_all
        have "processFiles py (withoutHiddenIn ((name, entry) # rest)) cur vp c
            = processFiles py ((name, withoutHidden entry) # withoutHiddenIn rest) cur vp c"
          using False by simp
        then show ?thesis
          unfolding processFiles_file [OF False st(1)] processFiles_file [OF False st(2)] e
          using "7.IH"(2)
          by (simp split: prod.splits option.splits del: processFiles.simps)
      qed
    qed
  qed
qed simp_all













lemma fileAt_written:
  assumes "files py' = (k, content) # files py"
  shows "fileAt py' k = Some content"
  using assms by (simp add: fileAt_def)

subsection \<open>FsBridge: the folder\<close>







subsection \<open>FsBridge: the walk and the round trip\<close>

lemma loadPythonModules_walk:
  assumes "loadPythonModules py h dir targetDirName = (Inr n, caught, py')"
  shows "\<exists>py1. createPyodideDirectory py (stagingPath h dir targetDirName) = (None, py1)
           \<and> processDirectory py1 (lookup h (located h dir)) (located h dir)
                (stagingPath h dir targetDirName) = (Inr n, caught, py')"
  using assms
  by (auto simp: loadPythonModules_def locateDirectory_def located_def stagingPath_def Let_def
      split: if_splits prod.splits option.splits simp del: processDirectory.simps)

text \<open>
  C1, as the code has it. A walk that catches no error (it returns its count and logs no
  warning) has written exactly the staged files, that is the files whose name ends in
  \<^verbatim>\<open>.py\<close> and whose path below the directory has no component beginning with a dot: each at
  the place where its mirrored path lands, with its host content, in the order of the
  walk; and the count is their number. This holds for \<open>processDirectory\<close> and for
  \<open>loadPythonModules\<close>, on every host and every runtime. Every entry whose name begins with a
  dot is skipped with all that lies under it: on every host tree and every runtime, errors
  or not, the walk is the walk of the tree with the hidden entries removed. A walk that
  catches an error transfers fewer files: see \<open>materializeTree_error_counterexample\<close>.
\<close>

theorem materializeTree_transfers_staged_files:
  "(processDirectory py tree currentDir pyodidePath = (Inr n, [], py') \<longrightarrow>
      n = length (stagedFiles tree)
      \<and> placed (files py')
          = rev (planned (pythonReads py) pyodidePath (stagedFiles tree)) @ placed (files py))
   \<and> (loadPythonModules py h dir targetDirName = (Inr m, [], py'') \<longrightarrow>
      m = length (stagedFiles (lookup h (located h dir)))
      \<and> placed (files py'')
          = rev (planned (pythonReads py) (stagingPath h dir targetDirName)
                   (stagedFiles (lookup h (located h dir))))
            @ placed (files py))
   \<and> processDirectory py0 root currentDir pyodidePath
        = processDirectory py0 (withoutHidden root) currentDir pyodidePath"
proof -
  have "m = length (stagedFiles (lookup h (located h dir)))
      \<and> placed (files py'')
          = rev (planned (pythonReads py) (stagingPath h dir targetDirName)
                   (stagedFiles (lookup h (located h dir))))
            @ placed (files py)"
    if l: "loadPythonModules py h dir targetDirName = (Inr m, [], py'')"
  proof -
    from loadPythonModules_walk [OF l] obtain py1 where
      mk: "createPyodideDirectory py (stagingPath h dir targetDirName) = (None, py1)"
      and w: "processDirectory py1 (lookup h (located h dir)) (located h dir)
                (stagingPath h dir targetDirName) = (Inr m, [], py'')"
      by blast
    show ?thesis
      using walk_clean(1) [OF w] createPyodideDirectory_result [OF mk] by simp
  qed
  then show ?thesis
    using walk_clean(1) [of py tree currentDir pyodidePath n py']
      walk_without_hidden(1) [of py0 root currentDir pyodidePath]
    by blast
qed

text \<open>
  The package directory \<open>exampleTree\<close> mounted at \<^verbatim>\<open>/opt/proj/proj\<close> and staged as \<^verbatim>\<open>proj\<close>: no
  error is caught and two files are written, \<^verbatim>\<open>a.py\<close> and \<^verbatim>\<open>sub/b.py\<close>; the hidden cache, the
  hidden unreadable file and the text file are not. The same on a runtime that holds a
  configuration file already.
\<close>

theorem materializeTree_transfers_staged_files_witness:
  "loadPythonModules freshRuntime (host_with ''/opt/proj/proj'' exampleTree) ''/opt/proj/proj''
       (Some ''proj'')
     = (Inr 2, [],
        snd (snd (loadPythonModules freshRuntime (host_with ''/opt/proj/proj'' exampleTree)
                    ''/opt/proj/proj'' (Some ''proj''))))
   \<and> length (stagedFiles exampleTree) = 2
   \<and> files (snd (snd (loadPythonModules freshRuntime (host_with ''/opt/proj/proj'' exampleTree)
                         ''/opt/proj/proj'' (Some ''proj''))))
       = [([''home'', ''pyodide'', ''proj'', ''sub'', ''b.py''], ''pass''),
          ([''home'', ''pyodide'', ''proj'', ''a.py''], ''print(1)'')]
   \<and> fst (processDirectory configuredRuntime exampleTree ''/opt/proj/proj'' ''./proj'') = Inr 2
   \<and> fst (snd (processDirectory configuredRuntime exampleTree ''/opt/proj/proj'' ''./proj'')) = []
   \<and> files (snd (snd (processDirectory configuredRuntime exampleTree ''/opt/proj/proj'' ''./proj'')))
       = [([''home'', ''pyodide'', ''proj'', ''sub'', ''b.py''], ''pass''),
          ([''home'', ''pyodide'', ''proj'', ''a.py''], ''print(1)''),
          ([''home'', ''pyodide'', ''config'', ''shell.yaml''], ''sandbox: ai_sandbox'')]"
proof -
  let ?h = "host_with ''/opt/proj/proj'' exampleTree"
  let ?r = "loadPythonModules freshRuntime ?h ''/opt/proj/proj'' (Some ''proj'')"
  have 1: "fst ?r = Inr 2" by code_simp
  have 2: "fst (snd ?r) = []" by code_simp
  have r: "?r = (Inr 2, [], snd (snd ?r))"
    using 1 2 by (metis prod.collapse)
  have l: "lookup ?h (located ?h ''/opt/proj/proj'') = exampleTree"
    by (simp add: located_def existsSync_def host_with_def exampleTree_def)
  have "2 = length (stagedFiles (lookup ?h (located ?h ''/opt/proj/proj'')))"
    using materializeTree_transfers_staged_files
      [of freshRuntime "Dir []" "[]" "[]" 0 freshRuntime ?h "''/opt/proj/proj''" "Some ''proj''" 2
        "snd (snd ?r)" freshRuntime "Dir []"] r
    by blast
  then have 3: "length (stagedFiles exampleTree) = 2" unfolding l by simp
  have 4: "files (snd (snd ?r))
       = [([''home'', ''pyodide'', ''proj'', ''sub'', ''b.py''], ''pass''),
          ([''home'', ''pyodide'', ''proj'', ''a.py''], ''print(1)'')]"
    by code_simp
  have 5: "fst (processDirectory configuredRuntime exampleTree ''/opt/proj/proj'' ''./proj'') = Inr 2
      \<and> fst (snd (processDirectory configuredRuntime exampleTree ''/opt/proj/proj'' ''./proj'')) = []
      \<and> files (snd (snd (processDirectory configuredRuntime exampleTree ''/opt/proj/proj'' ''./proj'')))
        = [([''home'', ''pyodide'', ''proj'', ''sub'', ''b.py''], ''pass''),
           ([''home'', ''pyodide'', ''proj'', ''a.py''], ''print(1)''),
           ([''home'', ''pyodide'', ''config'', ''shell.yaml''], ''sandbox: ai_sandbox'')]"
    by code_simp
  show ?thesis using r 3 4 5 by simp
qed

text \<open>
  C1 as stated fails. The directory \<open>danglingLink\<close> holds two staged modules and a dangling
  link between them: \<^verbatim>\<open>statSync\<close> throws on the link, the walk of the directory ends there, and
  one file is transferred, the count being 1. And the package directory \<^verbatim>\<open>.\<close>, staged under
  its base name \<^verbatim>\<open>.\<close>: the mirrored path of a module, \<^verbatim>\<open>a.py\<close>, has no directory part,
  \<^verbatim>\<open>os.makedirs\<close> raises on the empty path, and the walk transfers nothing.
\<close>

theorem materializeTree_error_counterexample:
  "length (stagedFiles danglingLink) = 2
   \<and> fst (loadPythonModules freshRuntime (host_with ''/opt/proj/proj'' danglingLink)
            ''/opt/proj/proj'' (Some ''proj'')) = Inr 1
   \<and> files (snd (snd (loadPythonModules freshRuntime (host_with ''/opt/proj/proj'' danglingLink)
                         ''/opt/proj/proj'' (Some ''proj''))))
       = [([''home'', ''pyodide'', ''proj'', ''a.py''], ''x = 1'')]
   \<and> length (stagedFiles exampleTree) = 2
   \<and> fst (loadPythonModules freshRuntime (host_with ''.'' exampleTree) ''.'' (Some ''.'')) = Inr 0
   \<and> files (snd (snd (loadPythonModules freshRuntime (host_with ''.'' exampleTree) ''.''
                         (Some ''.'')))) = []"
  by code_simp







end
